theory Spec2Isabelle
  imports Complex_Main "HOL-Library.Multiset"
begin

section \<open>Python strings\<close>

text \<open>
  The strings of the graph, of the evidence and of the requests are lists of 8-bit
  characters, read as the code points U+0000 to U+00FF: on these \<open>lower\<close> and \<open>is_space\<close>
  are \<^verbatim>\<open>str.lower()\<close> and \<^verbatim>\<open>str.isspace()\<close>.  What Python does on other code points is
  not in them; the keyword extraction, where it matters, is therefore defined for any
  character type and any lowercase and whitespace table (\<open>keywords_with\<close> below).
\<close>

text \<open>The code points below U+0100 that \<^verbatim>\<open>str.lower()\<close> changes: A to Z, and the capital
  letters U+00C0 to U+00DE without the multiplication sign U+00D7.  Each goes to the code
  point 32 above it.\<close>

definition upper_code :: "nat \<Rightarrow> bool" where
  "upper_code n = ((65 \<le> n \<and> n \<le> 90) \<or> (192 \<le> n \<and> n \<le> 222 \<and> n \<noteq> 215))"

definition lower_char :: "char \<Rightarrow> char" where
  "lower_char c =
     (let n = (of_char c :: nat) in if upper_code n then char_of (n + 32) else c)"

definition lower :: "string \<Rightarrow> string" where
  "lower s = map lower_char s"

text \<open>The code points below U+0100 for which \<^verbatim>\<open>str.isspace()\<close> holds: tab, LF, VT, FF,
  CR, the separators 0x1C to 0x1F, the space, NEL (U+0085) and the no-break space
  (U+00A0).\<close>

definition is_space :: "char \<Rightarrow> bool" where
  "is_space c =
     (let n = (of_char c :: nat) in
      (9 \<le> n \<and> n \<le> 13) \<or> (28 \<le> n \<and> n \<le> 32) \<or> n = 0x85 \<or> n = 0xA0)"

text \<open>\<^verbatim>\<open>s.split()\<close>: the maximal runs of non-whitespace characters, in order;
  \<open>isspace\<close> is the whitespace test of the character type.\<close>

function split_with :: "('c \<Rightarrow> bool) \<Rightarrow> 'c list \<Rightarrow> 'c list list" where
  "split_with isspace [] = []"
| "split_with isspace (c # cs) =
     (if isspace c then split_with isspace cs
      else (c # takeWhile (\<lambda>x. \<not> isspace x) cs)
           # split_with isspace (dropWhile (\<lambda>x. \<not> isspace x) cs))"
  by pat_completeness auto
termination
  by (relation "measure (\<lambda>(isspace, s). length s)")
     (auto simp: length_dropWhile_le le_imp_less_Suc)

text \<open>\<^verbatim>\<open>sep.join(xs)\<close>.\<close>

fun join :: "'c list \<Rightarrow> 'c list list \<Rightarrow> 'c list" where
  "join sep [] = []"
| "join sep [x] = x"
| "join sep (x # y # ys) = x @ sep @ join sep (y # ys)"

text \<open>A value that may be \<^verbatim>\<open>None\<close> (a Cypher \<^verbatim>\<open>null\<close>), as an f-string renders it.\<close>

fun py_str :: "string option \<Rightarrow> string" where
  "py_str None = ''None''"
| "py_str (Some s) = s"

text \<open>Truthiness of an optional string: \<^verbatim>\<open>None\<close> and the empty string are false.\<close>

fun truthy :: "string option \<Rightarrow> bool" where
  "truthy None = False"
| "truthy (Some s) = (s \<noteq> [])"

section \<open>Keyword extraction (stage 4, lines 342 to 344)\<close>

definition stop_words :: "string list" where
  "stop_words = [''the'', ''and'', ''for'', ''with'', ''what'', ''how'', ''why'', ''where'',
                 ''when'', ''who'', ''which'']"

text \<open>
  \<^verbatim>\<open>keywords = [word.lower() for word in user_query.split() if len(word) > 2]\<close>
  \<^verbatim>\<open>keywords = [word for word in keywords if word not in [...]]\<close>
  for any character type: \<open>str_lower\<close> is \<^verbatim>\<open>str.lower\<close>, \<open>isspace\<close> is
  \<^verbatim>\<open>str.isspace\<close> and \<open>stops\<close> the list of line 344.  The length of a token is tested
  before the token is lowercased.
\<close>

definition keywords_with ::
  "('c list \<Rightarrow> 'c list) \<Rightarrow> ('c \<Rightarrow> bool) \<Rightarrow> 'c list list \<Rightarrow> 'c list \<Rightarrow> 'c list list" where
  "keywords_with str_lower isspace stops user_query =
     (let keywords = map str_lower (filter (\<lambda>word. length word > 2) (split_with isspace user_query))
      in filter (\<lambda>word. word \<notin> set stops) keywords)"

text \<open>The keywords of a query of the pipeline, a text of code points below U+0100.\<close>

definition extract_keywords :: "string \<Rightarrow> string list" where
  "extract_keywords user_query = keywords_with lower is_space stop_words user_query"





text \<open>Cypher's \<^verbatim>\<open>split(s, d)\<close> for a one-character delimiter: the pieces between the
  occurrences of the delimiter, empty pieces included; never an empty list.\<close>

fun cy_split :: "char \<Rightarrow> string \<Rightarrow> string list" where
  "cy_split d [] = [[]]"
| "cy_split d (c # cs) =
     (if c = d then [] # cy_split d cs
      else (case cy_split d cs of [] \<Rightarrow> [[c]] | w # ws \<Rightarrow> (c # w) # ws))"

text \<open>Cypher's list indexing \<^verbatim>\<open>xs[i]\<close>: \<^verbatim>\<open>null\<close> out of range.\<close>

fun cy_index :: "'a list \<Rightarrow> nat \<Rightarrow> 'a option" where
  "cy_index [] i = None"
| "cy_index (x # xs) 0 = Some x"
| "cy_index (x # xs) (Suc i) = cy_index xs i"

text \<open>Cypher's equality inside \<^verbatim>\<open>WHERE\<close>: a comparison with \<^verbatim>\<open>null\<close> is not true.\<close>

fun cy_eq :: "string option \<Rightarrow> string option \<Rightarrow> bool" where
  "cy_eq (Some a) (Some b) = (a = b)"
| "cy_eq a b = False"

text \<open>\<^verbatim>\<open>x IN $list\<close>, false for \<^verbatim>\<open>null\<close>.\<close>

fun cy_in :: "string option \<Rightarrow> string list \<Rightarrow> bool" where
  "cy_in None xs = False"
| "cy_in (Some a) xs = (a \<in> set xs)"

fun coalesce :: "string option \<Rightarrow> string option \<Rightarrow> string option" where
  "coalesce (Some a) b = Some a"
| "coalesce None b = b"

fun starts_with :: "string \<Rightarrow> string \<Rightarrow> bool" where
  "starts_with s [] = True"
| "starts_with [] (k # ks) = False"
| "starts_with (c # cs) (k # ks) = (c = k \<and> starts_with cs ks)"

text \<open>\<^verbatim>\<open>s CONTAINS k\<close>: k is a contiguous part of s.\<close>

fun str_contains :: "string \<Rightarrow> string \<Rightarrow> bool" where
  "str_contains [] k = (k = [])"
| "str_contains (c # cs) k = (starts_with (c # cs) k \<or> str_contains cs k)"

text \<open>\<^verbatim>\<open>s.replace(old, '')\<close> for a non-empty \<^verbatim>\<open>old\<close>: every occurrence, found from the
  left, is removed.\<close>

function remove_sub :: "string \<Rightarrow> string \<Rightarrow> string" where
  "remove_sub old [] = []"
| "remove_sub old (c # cs) =
     (if old \<noteq> [] \<and> starts_with (c # cs) old then remove_sub old (drop (length old - 1) cs)
      else c # remove_sub old cs)"
  by pat_completeness auto
termination
  by (relation "measure (\<lambda>(old, s). length s)") auto

text \<open>\<^verbatim>\<open>RETURN DISTINCT\<close>: the first occurrence of every row is kept.\<close>

function cy_distinct :: "'a list \<Rightarrow> 'a list" where
  "cy_distinct [] = []"
| "cy_distinct (x # xs) = x # cy_distinct (removeAll x xs)"
  by pat_completeness auto
termination
  by (relation "measure length") (auto simp: length_removeAll_less_eq le_imp_less_Suc)

section \<open>Exceptions\<close>

text \<open>The exceptions that the code raises or catches.  \<open>HTTPException\<close> carries the status code
  and the description; the others carry \<^verbatim>\<open>str(e)\<close>.\<close>

datatype exn =
    Neo4jError string
  | ConnectionError string
  | GoogleAPIError string
  | AttributeError string
  | IndexError string
  | HTTPException nat string
  | OtherException string

fun exn_str :: "exn \<Rightarrow> string" where
  "exn_str (Neo4jError m) = m"
| "exn_str (ConnectionError m) = m"
| "exn_str (GoogleAPIError m) = m"
| "exn_str (AttributeError m) = m"
| "exn_str (IndexError m) = m"
| "exn_str (HTTPException c m) = m"
| "exn_str (OtherException m) = m"

section \<open>The graph store\<close>

text \<open>A node of the knowledge graph: its identity, its labels and the properties that the
  queries of \<^verbatim>\<open>app.py\<close> read.  A missing property is \<open>None\<close>.\<close>

record node =
  nid :: nat
  n_labels :: "string list"
  n_name :: "string option"
  n_file_path :: "string option"
  n_path :: "string option"
  n_description :: "string option"
  n_context_sample :: "string option"
  n_repo_id :: "string option"

text \<open>A path: its first node and the nodes after it; its length is the number of hops.\<close>

type_synonym path = "node \<times> node list"

definition path_nodes :: "path \<Rightarrow> node list" where
  "path_nodes p = fst p # snd p"

definition path_last :: "path \<Rightarrow> node" where
  "path_last p = last (fst p # snd p)"

definition path_length :: "path \<Rightarrow> nat" where
  "path_length p = length (snd p)"

text \<open>The queries that \<^verbatim>\<open>retrieve_graph_context\<close> sends, in the order of the source (the
  per-file query of stage 5 carries its \<^verbatim>\<open>$path\<close> parameter), and the two statements of
  \<^verbatim>\<open>clear_database\<close>.\<close>

datatype query =
    FunctionQuery
  | FileQuery
  | TraversalQuery
  | PathQuery
  | NameQuery
  | DescQuery
  | FileContextQuery
  | FileEntitiesQuery "string option"
  | DeleteRelationships
  | DeleteNodes

text \<open>
  The session on the store.  \<open>nodes\<close> are all nodes in the order in which \<^verbatim>\<open>MATCH (n)\<close>
  scans them, \<open>relationships\<close> the typed edges between node identities.  The three procedures
  that the queries call are the store's own and are taken as they are:
  \<^verbatim>\<open>db.index.vector.queryNodes(index, k, embedding)\<close>, \<^verbatim>\<open>apoc.path.expandConfig\<close> with the
  configuration of line 283, and \<^verbatim>\<open>apoc.algo.allSimplePaths(a, b, null, maxLength)\<close>.
  \<open>fault q\<close> is the exception that \<^verbatim>\<open>session.run\<close> raises for query \<open>q\<close>, if any.
  Similarity scores are real numbers; \<^verbatim>\<open>ORDER BY\<close> is a stable sort and a \<^verbatim>\<open>LIMIT\<close>
  without an order keeps the first rows of the scan.
\<close>

record 'e session =
  nodes :: "node list"
  relationships :: "(nat \<times> string \<times> nat) list"
  queryNodes :: "string \<Rightarrow> nat \<Rightarrow> 'e \<Rightarrow> (node \<times> real) list"
  expandConfig :: "node \<Rightarrow> path list"
  allSimplePaths :: "node \<Rightarrow> node \<Rightarrow> nat \<Rightarrow> path list"
  fault :: "query \<Rightarrow> exn option"

section \<open>Result rows\<close>

text \<open>The rows of \<^verbatim>\<open>.data()\<close>: every column of the \<^verbatim>\<open>RETURN\<close> clause is a key of the
  row, so \<^verbatim>\<open>res.get(key, default)\<close> never takes its default; a \<^verbatim>\<open>null\<close> column is
  \<open>None\<close>.  \<open>rtype\<close> is the column \<^verbatim>\<open>type\<close>.\<close>

record row =
  name :: "string option"
  rtype :: "string option"
  filePath :: "string option"
  description :: "string option"
  code :: "string option"

record vrow = row +
  score :: real

record file_row =
  path :: "string option"
  repoId :: "string option"
  fileLabels :: "string list"

record entity_ref =
  e_name :: "string option"
  e_type :: "string option"

text \<open>\<^verbatim>\<open>labels(node)[0]\<close>.\<close>

definition first_label :: "node \<Rightarrow> string option" where
  "first_label n = cy_index (n_labels n) 0"

section \<open>The Cypher queries\<close>

subsection \<open>Stage 1: vector search (lines 237 to 254)\<close>

definition function_hits :: "'e session \<Rightarrow> 'e \<Rightarrow> (node \<times> real) list" where
  "function_hits s query_embedding =
     sort_key (\<lambda>h. - snd h)
       (filter (\<lambda>h. snd h > 0.6 \<and> n_file_path (fst h) \<noteq> None)
          (queryNodes s ''function_index'' 5 query_embedding))"

definition function_row :: "node \<times> real \<Rightarrow> vrow" where
  "function_row h =
     \<lparr>name = n_name (fst h), rtype = first_label (fst h), filePath = n_file_path (fst h),
      description = n_description (fst h), code = n_context_sample (fst h), score = snd h\<rparr>"

definition function_query :: "'e session \<Rightarrow> 'e \<Rightarrow> vrow list" where
  "function_query s query_embedding = map function_row (function_hits s query_embedding)"

definition file_hits :: "'e session \<Rightarrow> 'e \<Rightarrow> (node \<times> real) list" where
  "file_hits s query_embedding =
     sort_key (\<lambda>h. - snd h)
       (filter (\<lambda>h. snd h > 0.6) (queryNodes s ''file_index'' 5 query_embedding))"

definition file_row_of :: "node \<times> real \<Rightarrow> vrow" where
  "file_row_of h =
     \<lparr>name = n_name (fst h), rtype = first_label (fst h), filePath = n_path (fst h),
      description = n_description (fst h), code = n_context_sample (fst h), score = snd h\<rparr>"

definition file_query :: "'e session \<Rightarrow> 'e \<Rightarrow> vrow list" where
  "file_query s query_embedding = map file_row_of (file_hits s query_embedding)"

subsection \<open>Stage 2: traversal (lines 277 to 295)\<close>

text \<open>The projection of lines 291 to 293 (and 320 to 322).\<close>

definition project :: "node \<Rightarrow> row" where
  "project n =
     \<lparr>name = n_name n, rtype = first_label n, filePath = coalesce (n_file_path n) (n_path n),
      description = n_description n, code = n_context_sample n\<rparr>"

text \<open>Line 279: \<^verbatim>\<open>split(entityId, '-')[0] AS name, split(entityId, '-')[1] AS filePath\<close>.\<close>

definition id_name :: "string \<Rightarrow> string option" where
  "id_name entityId = cy_index (cy_split (CHR ''-'') entityId) 0"

definition id_filePath :: "string \<Rightarrow> string option" where
  "id_filePath entityId = cy_index (cy_split (CHR ''-'') entityId) 1"

text \<open>Lines 280 to 282: the \<^verbatim>\<open>WHERE\<close> clause on \<open>start\<close>.\<close>

definition is_start :: "string option \<Rightarrow> string option \<Rightarrow> node \<Rightarrow> bool" where
  "is_start nm fp start =
     ((''Function'' \<in> set (n_labels start) \<and> cy_eq (n_name start) nm \<and> cy_eq (n_file_path start) fp)
      \<or> (''File'' \<in> set (n_labels start) \<and> cy_eq (n_path start) fp))"

definition traversal_starts :: "'e session \<Rightarrow> string list \<Rightarrow> node list" where
  "traversal_starts s entityIds =
     concat (map (\<lambda>entityId. filter (is_start (id_name entityId) (id_filePath entityId)) (nodes s))
       entityIds)"

text \<open>Lines 283 to 290: the pairs \<open>(node, start)\<close> that pass \<^verbatim>\<open>WHERE node <> start\<close>.\<close>

definition traversal_pairs :: "'e session \<Rightarrow> string list \<Rightarrow> (node \<times> node) list" where
  "traversal_pairs s entityIds =
     filter (\<lambda>(node, start). nid node \<noteq> nid start)
       (concat (map (\<lambda>start. map (\<lambda>p. (path_last p, start)) (expandConfig s start))
          (traversal_starts s entityIds)))"

definition traversal_query :: "'e session \<Rightarrow> string list \<Rightarrow> row list" where
  "traversal_query s entityIds =
     take 20 (cy_distinct (map (\<lambda>(node, start). project node) (traversal_pairs s entityIds)))"

subsection \<open>Stage 3: paths (lines 312 to 323)\<close>

definition path_endpoints :: "'e session \<Rightarrow> string option \<Rightarrow> string option \<Rightarrow> (node \<times> node) list" where
  "path_endpoints s entity1 entity2 =
     filter (\<lambda>(a, b). cy_eq (n_name a) entity1 \<and> cy_eq (n_name b) entity2)
       (List.product (nodes s) (nodes s))"

definition path_candidates :: "'e session \<Rightarrow> string option \<Rightarrow> string option \<Rightarrow> path list" where
  "path_candidates s entity1 entity2 =
     concat (map (\<lambda>(a, b). allSimplePaths s a b 3) (path_endpoints s entity1 entity2))"

definition path_chosen :: "'e session \<Rightarrow> string option \<Rightarrow> string option \<Rightarrow> path list" where
  "path_chosen s entity1 entity2 = take 3 (sort_key path_length (path_candidates s entity1 entity2))"

definition path_query :: "'e session \<Rightarrow> string option \<Rightarrow> string option \<Rightarrow> row list" where
  "path_query s entity1 entity2 =
     cy_distinct (map project (concat (map path_nodes (path_chosen s entity1 entity2))))"

subsection \<open>Stage 4: keyword search (lines 348 to 354 and 368 to 374)\<close>

definition keyword_row :: "node \<Rightarrow> row" where
  "keyword_row n =
     \<lparr>name = n_name n, rtype = first_label n, filePath = n_file_path n,
      description = n_description n, code = n_context_sample n\<rparr>"

text \<open>\<^verbatim>\<open>ANY(keyword IN $keywords WHERE toLower(field) CONTAINS keyword)\<close>.\<close>

fun any_keyword :: "string list \<Rightarrow> string option \<Rightarrow> bool" where
  "any_keyword keywords None = False"
| "any_keyword keywords (Some v) = list_ex (\<lambda>keyword. str_contains (lower v) keyword) keywords"

definition name_query :: "'e session \<Rightarrow> string list \<Rightarrow> row list" where
  "name_query s keywords =
     take 5 (map keyword_row (filter (\<lambda>n. any_keyword keywords (n_name n)) (nodes s)))"

definition desc_query :: "'e session \<Rightarrow> string list \<Rightarrow> row list" where
  "desc_query s keywords =
     take 5 (map keyword_row (filter (\<lambda>n. any_keyword keywords (n_description n)) (nodes s)))"

subsection \<open>Stage 5: file context (lines 400 to 407 and 423 to 428)\<close>

definition file_labels :: "string list" where
  "file_labels = [''File'', ''SourceFile'', ''PythonModule'', ''JavaScriptModule'', ''CobolProgram'',
     ''SasProgram'', ''JclJob'', ''FlinkJob'', ''DataFile'', ''CppFile'', ''FortranProgram'',
     ''PliProgram'', ''AssemblyFile'', ''RpgProgram'']"

definition file_context_query :: "'e session \<Rightarrow> string list \<Rightarrow> file_row list" where
  "file_context_query s filePaths =
     map (\<lambda>f. \<lparr>path = coalesce (n_path f) (n_file_path f), repoId = n_repo_id f,
                 fileLabels = n_labels f\<rparr>)
       (filter (\<lambda>f. list_ex (\<lambda>l. l \<in> set file_labels) (n_labels f)
                    \<and> (cy_in (n_path f) filePaths \<or> cy_in (n_file_path f) filePaths))
          (nodes s))"

text \<open>\<^verbatim>\<open>MATCH (f)-[:CONTAINS]->(e) WHERE f.path = $path OR f.file_path = $path\<close>,
  \<^verbatim>\<open>LIMIT 8\<close>.\<close>

definition file_entities_query :: "'e session \<Rightarrow> string option \<Rightarrow> entity_ref list" where
  "file_entities_query s p =
     take 8
       (map (\<lambda>(f, e). \<lparr>e_name = n_name e, e_type = first_label e\<rparr>)
          (filter (\<lambda>(f, e). cy_eq (n_path f) p \<or> cy_eq (n_file_path f) p)
             (concat (map (\<lambda>(i, t, j).
                        if t = ''CONTAINS''
                        then List.product (filter (\<lambda>f. nid f = i) (nodes s))
                                          (filter (\<lambda>e. nid e = j) (nodes s))
                        else [])
                      (relationships s)))))"

section \<open>Rendering evidence sentences\<close>

definition nl :: string where
  "nl = [CHR 0x0A]"

definition quoted :: "string \<Rightarrow> string" where
  "quoted s = CHR 0x27 # s @ [CHR 0x27]"

text \<open>\<^verbatim>\<open>None.lower()\<close>.\<close>

definition none_has_no_lower :: exn where
  "none_has_no_lower = AttributeError ''NoneType object has no attribute lower''"

text \<open>The tail \<^verbatim>\<open>\nCode:\n```\n{code_sample}\n```\<close>, present when \<^verbatim>\<open>code_sample\<close> is truthy.\<close>

fun code_block :: "string option \<Rightarrow> string" where
  "code_block None = []"
| "code_block (Some c) = (if c \<noteq> [] then nl @ ''Code:'' @ nl @ ''```'' @ nl @ c @ nl @ ''```'' else [])"

text \<open>Lines 260 to 270, 298 to 306 and 330 to 338; \<open>prefix\<close> is empty,
  \<^verbatim>\<open>Via graph traversal: \<close> or \<^verbatim>\<open>Via path connection: \<close>.\<close>

definition entity_sentence :: "string \<Rightarrow> 'a row_scheme \<Rightarrow> exn + string" where
  "entity_sentence prefix res =
     (case rtype res of
        None \<Rightarrow> Inl none_has_no_lower
      | Some entity_type \<Rightarrow>
          Inr (prefix @ ''In file '' @ quoted (py_str (filePath res)) @ '', there is a ''
               @ lower entity_type @ '' called '' @ quoted (py_str (name res)) @ ''. ''
               @ py_str (description res) @ code_block (code res)))"

text \<open>Lines 358 to 365.\<close>

definition name_sentence :: "row \<Rightarrow> exn + string" where
  "name_sentence res =
     (case rtype res of
        None \<Rightarrow> Inl none_has_no_lower
      | Some entity_type \<Rightarrow>
          Inr (''Found a '' @ lower entity_type @ '' named '' @ quoted (py_str (name res))
               @ '' in '' @ quoted (py_str (filePath res)) @ '' that matches your query. ''
               @ py_str (description res) @ code_block (code res)))"

text \<open>Lines 378 to 385.\<close>

definition desc_sentence :: "row \<Rightarrow> exn + string" where
  "desc_sentence res =
     (case rtype res of
        None \<Rightarrow> Inl none_has_no_lower
      | Some entity_type \<Rightarrow>
          Inr (''The '' @ lower entity_type @ '' '' @ quoted (py_str (name res))
               @ '' in '' @ quoted (py_str (filePath res)) @ '' appears relevant to your question. ''
               @ py_str (description res) @ code_block (code res)))"

text \<open>Lines 412 to 418: the first label other than \<^verbatim>\<open>File\<close>, with the generic suffixes
  removed.\<close>

fun file_type_of :: "string list \<Rightarrow> string" where
  "file_type_of [] = ''file''"
| "file_type_of (label # ls) =
     (if label \<noteq> ''File''
      then remove_sub ''Job'' (remove_sub ''Module'' (remove_sub ''Program'' (remove_sub ''File'' label)))
      else file_type_of ls)"

text \<open>Line 420.\<close>

definition file_sentence :: "file_row \<Rightarrow> string" where
  "file_sentence res =
     ''The '' @ lower (file_type_of (fileLabels res)) @ '' file '' @ quoted (py_str (path res))
     @ '' is part of repository '' @ quoted (py_str (repoId res)) @ ''.''"

text \<open>Lines 432 to 437.\<close>

fun entities_info :: "entity_ref list \<Rightarrow> exn + string list" where
  "entities_info [] = Inr []"
| "entities_info (e # es) =
     (case e_type e of
        None \<Rightarrow> Inl none_has_no_lower
      | Some t \<Rightarrow>
          (case entities_info es of
             Inl x \<Rightarrow> Inl x
           | Inr info \<Rightarrow>
               (case e_name e of
                  None \<Rightarrow> Inr info
                | Some nm \<Rightarrow> Inr (if nm \<noteq> [] then (lower t @ '' '' @ quoted nm) # info else info))))"

text \<open>Lines 439 to 441.\<close>

definition contains_sentence :: "file_row \<Rightarrow> string list \<Rightarrow> string" where
  "contains_sentence res info =
     ''The file '' @ quoted (py_str (path res)) @ '' contains: '' @ join '', '' info @ ''.''"

section \<open>retrieve_graph_context (lines 226 to 451)\<close>

text \<open>The state of one call: the list \<^verbatim>\<open>context\<close>, and the queries handed to
  \<^verbatim>\<open>session.run\<close> so far.\<close>

record st =
  context_list :: "string list"
  ran :: "query list"

text \<open>\<^verbatim>\<open>session.run(q, ...).data()\<close>: the query is sent; it raises its fault or returns its
  rows.\<close>

definition run :: "'e session \<Rightarrow> query \<Rightarrow> 'r \<Rightarrow> st \<Rightarrow> (exn + 'r) \<times> st" where
  "run s q rows \<sigma> =
     ((case fault s q of Some e \<Rightarrow> Inl e | None \<Rightarrow> Inr rows), \<sigma>\<lparr>ran := ran \<sigma> @ [q]\<rparr>)"

text \<open>A \<^verbatim>\<open>for res in results: context.append(sentence(res))\<close> loop: the sentences appended
  before a raise stay in \<^verbatim>\<open>context\<close>.\<close>

fun append_all :: "('r \<Rightarrow> exn + string) \<Rightarrow> 'r list \<Rightarrow> st \<Rightarrow> exn option \<times> st" where
  "append_all f [] \<sigma> = (None, \<sigma>)"
| "append_all f (res # rest) \<sigma> =
     (case f res of
        Inl e \<Rightarrow> (Some e, \<sigma>)
      | Inr t \<Rightarrow> append_all f rest (\<sigma>\<lparr>context_list := context_list \<sigma> @ [t]\<rparr>))"

text \<open>Line 258.\<close>

definition entity_ids :: "vrow list \<Rightarrow> string list" where
  "entity_ids entity_results =
     map (\<lambda>res. py_str (name res) @ ''-'' @ py_str (filePath res)) entity_results"

text \<open>Stage 1, lines 234 to 272.\<close>

definition vector_stage :: "'e session \<Rightarrow> 'e \<Rightarrow> st \<Rightarrow> (exn + vrow list) \<times> st" where
  "vector_stage s query_embedding \<sigma> =
     (case run s FunctionQuery (function_query s query_embedding) \<sigma> of
        (Inl e, \<sigma>1) \<Rightarrow> (Inl e, \<sigma>1)
      | (Inr function_results, \<sigma>1) \<Rightarrow>
          (case run s FileQuery (file_query s query_embedding) \<sigma>1 of
             (Inl e, \<sigma>2) \<Rightarrow> (Inl e, \<sigma>2)
           | (Inr file_results, \<sigma>2) \<Rightarrow>
               (let entity_results = function_results @ file_results in
                case append_all (entity_sentence []) entity_results \<sigma>2 of
                  (Some e, \<sigma>3) \<Rightarrow> (Inl e, \<sigma>3)
                | (None, \<sigma>3) \<Rightarrow> (Inr entity_results, \<sigma>3))))"

text \<open>Stage 2, lines 275 to 306.\<close>

definition traversal_stage :: "'e session \<Rightarrow> vrow list \<Rightarrow> st \<Rightarrow> exn option \<times> st" where
  "traversal_stage s entity_results \<sigma> =
     (if entity_results \<noteq> [] then
        (case run s TraversalQuery (traversal_query s (entity_ids entity_results)) \<sigma> of
           (Inl e, \<sigma>1) \<Rightarrow> (Some e, \<sigma>1)
         | (Inr traversal_results, \<sigma>1) \<Rightarrow>
             append_all (entity_sentence ''Via graph traversal: '') traversal_results \<sigma>1)
      else (None, \<sigma>))"

text \<open>Stage 3, lines 309 to 338.\<close>

definition path_stage :: "'e session \<Rightarrow> vrow list \<Rightarrow> st \<Rightarrow> exn option \<times> st" where
  "path_stage s entity_results \<sigma> =
     (if length entity_results \<ge> 2 then
        (let top_entities = map name (take 2 entity_results) in
         case run s PathQuery (path_query s (top_entities ! 0) (top_entities ! 1)) \<sigma> of
           (Inl e, \<sigma>1) \<Rightarrow> (Some e, \<sigma>1)
         | (Inr path_results, \<sigma>1) \<Rightarrow>
             append_all (entity_sentence ''Via path connection: '') path_results \<sigma>1)
      else (None, \<sigma>))"

text \<open>Stage 4, lines 342 to 385.\<close>

definition keyword_stage :: "'e session \<Rightarrow> string \<Rightarrow> st \<Rightarrow> exn option \<times> st" where
  "keyword_stage s user_query \<sigma> =
     (let keywords = extract_keywords user_query in
      if keywords \<noteq> [] then
        (case run s NameQuery (name_query s keywords) \<sigma> of
           (Inl e, \<sigma>1) \<Rightarrow> (Some e, \<sigma>1)
         | (Inr name_results, \<sigma>1) \<Rightarrow>
             (case append_all name_sentence name_results \<sigma>1 of
                (Some e, \<sigma>2) \<Rightarrow> (Some e, \<sigma>2)
              | (None, \<sigma>2) \<Rightarrow>
                  (case run s DescQuery (desc_query s keywords) \<sigma>2 of
                     (Inl e, \<sigma>3) \<Rightarrow> (Some e, \<sigma>3)
                   | (Inr desc_results, \<sigma>3) \<Rightarrow> append_all desc_sentence desc_results \<sigma>3)))
      else (None, \<sigma>))"

text \<open>Stage 5, lines 411 to 441: the loop over the rows of the file query.\<close>

fun file_loop :: "'e session \<Rightarrow> file_row list \<Rightarrow> st \<Rightarrow> exn option \<times> st" where
  "file_loop s [] \<sigma> = (None, \<sigma>)"
| "file_loop s (res # rest) \<sigma> =
     (case run s (FileEntitiesQuery (path res)) (file_entities_query s (path res))
             (\<sigma>\<lparr>context_list := context_list \<sigma> @ [file_sentence res]\<rparr>) of
        (Inl e, \<sigma>1) \<Rightarrow> (Some e, \<sigma>1)
      | (Inr file_entities, \<sigma>1) \<Rightarrow>
          (case entities_info file_entities of
             Inl e \<Rightarrow> (Some e, \<sigma>1)
           | Inr info \<Rightarrow>
               file_loop s rest
                 (if info \<noteq> [] then \<sigma>1\<lparr>context_list := context_list \<sigma>1 @ [contains_sentence res info]\<rparr>
                  else \<sigma>1)))"

text \<open>Lines 391 to 396: the truthy \<^verbatim>\<open>filePath\<close> values, without duplicates.\<close>

definition collect_file_paths :: "vrow list \<Rightarrow> string list" where
  "collect_file_paths entity_results =
     remdups (concat (map (\<lambda>res. case filePath res of
                                    None \<Rightarrow> []
                                  | Some p \<Rightarrow> if p \<noteq> [] then [p] else [])
                       entity_results))"

text \<open>Stage 5, lines 389 to 441.\<close>

definition file_stage :: "'e session \<Rightarrow> vrow list \<Rightarrow> st \<Rightarrow> exn option \<times> st" where
  "file_stage s entity_results \<sigma> =
     (if entity_results \<noteq> [] then
        (let file_paths = collect_file_paths entity_results in
         if file_paths \<noteq> [] then
           (case run s FileContextQuery (file_context_query s file_paths) \<sigma> of
              (Inl e, \<sigma>1) \<Rightarrow> (Some e, \<sigma>1)
            | (Inr file_results, \<sigma>1) \<Rightarrow> file_loop s file_results \<sigma>1)
         else (None, \<sigma>))
      else (None, \<sigma>))"

text \<open>The body of the one \<^verbatim>\<open>try\<close> block, lines 232 to 441: the first exception ends it.\<close>

definition try_body :: "'e session \<Rightarrow> 'e \<Rightarrow> string \<Rightarrow> st \<Rightarrow> exn option \<times> st" where
  "try_body s query_embedding user_query \<sigma> =
     (case vector_stage s query_embedding \<sigma> of
        (Inl e, \<sigma>1) \<Rightarrow> (Some e, \<sigma>1)
      | (Inr entity_results, \<sigma>1) \<Rightarrow>
          (case traversal_stage s entity_results \<sigma>1 of
             (Some e, \<sigma>2) \<Rightarrow> (Some e, \<sigma>2)
           | (None, \<sigma>2) \<Rightarrow>
               (case path_stage s entity_results \<sigma>2 of
                  (Some e, \<sigma>3) \<Rightarrow> (Some e, \<sigma>3)
                | (None, \<sigma>3) \<Rightarrow>
                    (case keyword_stage s user_query \<sigma>3 of
                       (Some e, \<sigma>4) \<Rightarrow> (Some e, \<sigma>4)
                     | (None, \<sigma>4) \<Rightarrow> file_stage s entity_results \<sigma>4))))"

datatype log_event = LogWarning string | LogError string

text \<open>Lines 443 to 446: the two \<^verbatim>\<open>except\<close> clauses log the exception.\<close>

fun log_caught :: "exn \<Rightarrow> log_event" where
  "log_caught (Neo4jError m) = LogError (''Neo4j Cypher error during context retrieval: '' @ m)"
| "log_caught e =
     LogError (''An unexpected error occurred during context retrieval: '' @ exn_str e)"

definition no_context :: string where
  "no_context = ''No specific context found in the graph.''"

text \<open>Lines 448 to 451.\<close>

definition render_context :: "string list \<Rightarrow> string" where
  "render_context ctx = (if ctx = [] then no_context else join nl ctx)"

text \<open>What one call does: the string it returns, the errors it logs and the queries it sent.\<close>

record outcome =
  returned :: string
  logged :: "log_event list"
  executed :: "query list"

definition retrieve_graph_context :: "'e \<Rightarrow> string \<Rightarrow> 'e session \<Rightarrow> outcome" where
  "retrieve_graph_context query_embedding user_query s =
     (case try_body s query_embedding user_query \<lparr>context_list = [], ran = []\<rparr> of
        (r, \<sigma>) \<Rightarrow>
          \<lparr>returned = render_context (context_list \<sigma>),
           logged = (case r of None \<Rightarrow> [] | Some e \<Rightarrow> [log_caught e]),
           executed = ran \<sigma>\<rparr>)"

section \<open>generate_embeddings (lines 214 to 224)\<close>

text \<open>What one call does: its result (a raise is \<open>Inl\<close>), the argument lists passed to
  \<^verbatim>\<open>embedding_model.get_embeddings\<close>, and what it logs.\<close>

record 'v embedded =
  result :: "exn + 'v list"
  provider_calls :: "string list list"
  emb_log :: "log_event list"

text \<open>\<^verbatim>\<open>if not text\<close> holds for the empty string only; \<^verbatim>\<open>embeddings[0]\<close> raises on an
  empty answer, and every exception is logged and raised again.\<close>

definition generate_embeddings :: "(string list \<Rightarrow> exn + 'v list list) \<Rightarrow> string \<Rightarrow> 'v embedded" where
  "generate_embeddings get_embeddings text' =
     (if text' = [] then
        \<lparr>result = Inr [], provider_calls = [],
         emb_log = [LogWarning ''Attempted to generate embedding for empty text.'']\<rparr>
      else
        (case get_embeddings [text'] of
           Inl e \<Rightarrow>
             \<lparr>result = Inl e, provider_calls = [[text']],
              emb_log = [LogError (''Vertex AI embedding model error: '' @ exn_str e)]\<rparr>
         | Inr [] \<Rightarrow>
             \<lparr>result = Inl (IndexError ''list index out of range''), provider_calls = [[text']],
              emb_log = [LogError (''Vertex AI embedding model error: list index out of range'')]\<rparr>
         | Inr (v # vs) \<Rightarrow> \<lparr>result = Inr v, provider_calls = [[text']], emb_log = []\<rparr>))"

section \<open>The HTTP endpoints\<close>

datatype jval = JStr string | JInt int | JBool bool

text \<open>A response: the keys and values of the JSON body as the source writes them, and the
  status code.\<close>

type_synonym response = "(string \<times> jval) list \<times> nat"

text \<open>Lines 166 to 210: the error handlers.\<close>

definition handle_bad_request :: "string \<Rightarrow> response" where
  "handle_bad_request d =
     ([(''status'', JInt 400), (''message'', JStr (''Bad Request: '' @ d)),
       (''error_type'', JStr ''BadRequest'')], 400)"

definition handle_not_found :: response where
  "handle_not_found =
     ([(''status'', JInt 404),
       (''message'', JStr ''Not Found: The requested resource does not exist.''),
       (''error_type'', JStr ''NotFound'')], 404)"

definition handle_db_connection_error :: response where
  "handle_db_connection_error =
     ([(''status'', JInt 500),
       (''message'', JStr (''Internal Server Error: Could not connect to the database. ''
                           @ ''Please try again later.'')),
       (''error_type'', JStr ''DatabaseConnectionError'')], 500)"

definition handle_google_api_error :: "string \<Rightarrow> response" where
  "handle_google_api_error reason =
     ([(''status'', JInt 500),
       (''message'', JStr (''Internal Server Error: Google Cloud API issue. Reason: '' @ reason
                           @ ''. Please check API permissions/quotas.'')),
       (''error_type'', JStr ''GoogleAPIError'')], 500)"

definition handle_generic_error :: response where
  "handle_generic_error =
     ([(''status'', JInt 500),
       (''message'', JStr (''Internal Server Error: An unexpected error occurred. ''
                           @ ''Please try again or contact support.'')),
       (''error_type'', JStr ''InternalServerError'')], 500)"

text \<open>The framework's choice of the registered handler for an exception that leaves a view:
  by status code for an HTTP error, by class otherwise, the handler of \<^verbatim>\<open>Exception\<close> last.\<close>

fun handle_exception :: "exn \<Rightarrow> response" where
  "handle_exception (HTTPException c d) =
     (if c = 400 then handle_bad_request d
      else if c = 404 then handle_not_found
      else handle_generic_error)"
| "handle_exception (ConnectionError m) = handle_db_connection_error"
| "handle_exception (GoogleAPIError reason) = handle_google_api_error reason"
| "handle_exception e = handle_generic_error"

text \<open>The collaborators of a request: the driver that \<^verbatim>\<open>GraphDatabase.driver\<close> and its
  first \<^verbatim>\<open>verify_connectivity\<close> give (or the failure of either), the later
  \<^verbatim>\<open>verify_connectivity\<close> of the health check, the embedding model and the generative
  model.\<close>

datatype driver_error = ServiceUnavailable string | DriverFailure string

record prompt =
  conversation_context :: string
  user_question :: string
  context_from_graph :: string

record 'v env =
  driver :: "driver_error + ('v list) session"
  verify_connectivity :: "exn option"
  get_embeddings :: "string list \<Rightarrow> exn + 'v list list"
  generate_content :: "prompt \<Rightarrow> exn + string"

text \<open>Lines 70 to 95: every failure of the initialisation is raised as a
  \<^verbatim>\<open>ConnectionError\<close>.\<close>

definition get_neo4j_driver :: "'v env \<Rightarrow> exn + ('v list) session" where
  "get_neo4j_driver env =
     (case driver env of
        Inl (ServiceUnavailable m) \<Rightarrow> Inl (ConnectionError ''Failed to connect to Neo4j database.'')
      | Inl (DriverFailure m) \<Rightarrow> Inl (ConnectionError ''Failed to initialize Neo4j database driver.'')
      | Inr s \<Rightarrow> Inr s)"

text \<open>A message of the history; \<open>None\<close> is a missing key.\<close>

record message =
  role :: "string option"
  content :: "string option"

definition upper_char :: "char \<Rightarrow> char" where
  "upper_char c =
     (let n = (of_char c :: nat) in if 97 \<le> n \<and> n \<le> 122 then char_of (n - 32) else c)"

fun capitalize :: "string \<Rightarrow> string" where
  "capitalize [] = []"
| "capitalize (c # cs) = upper_char c # lower cs"

text \<open>Lines 488 to 494: the last five messages.\<close>

definition format_history :: "message list \<Rightarrow> string" where
  "format_history conversation_history =
     (if conversation_history \<noteq> [] then
        ''Previous conversation:'' @ nl
        @ concat (map (\<lambda>msg. capitalize (case role msg of None \<Rightarrow> ''unknown'' | Some r \<Rightarrow> r) @ '': ''
                          @ (case content msg of None \<Rightarrow> [] | Some c \<Rightarrow> c) @ nl)
                    (drop (length conversation_history - 5) conversation_history))
      else [])"

text \<open>The body of a request to \<^verbatim>\<open>/api/chat\<close>: one that \<^verbatim>\<open>request.json\<close> rejects with its
  description, or the values of \<^verbatim>\<open>data.get('query')\<close> and \<^verbatim>\<open>data.get('history', [])\<close>.\<close>

datatype chat_request = BadJson string | ChatJson "string option" "message list"

text \<open>Lines 455 to 549.  The view either returns a response or lets an exception out (the
  three \<^verbatim>\<open>except\<close> clauses log and raise again).  The fixed instructions of the prompt are
  left out of \<open>prompt\<close>.\<close>

definition chat_with_graph :: "'v env \<Rightarrow> chat_request \<Rightarrow> exn + response" where
  "chat_with_graph env req =
     (case req of
        BadJson d \<Rightarrow> Inl (HTTPException 400 d)
      | ChatJson q conversation_history \<Rightarrow>
          (case q of
             None \<Rightarrow> Inr ([(''response'', JStr ''Please provide a query.'')], 400)
           | Some user_query \<Rightarrow>
               if user_query = [] then Inr ([(''response'', JStr ''Please provide a query.'')], 400)
               else
                 (case get_neo4j_driver env of
                    Inl e \<Rightarrow> Inl e
                  | Inr s \<Rightarrow>
                      (case result (generate_embeddings (get_embeddings env) user_query) of
                         Inl e \<Rightarrow> Inl e
                       | Inr query_embedding \<Rightarrow>
                           if query_embedding = [] then
                             Inr ([(''response'',
                                    JStr (''Could not generate embeddings for your query. ''
                                          @ ''Please try again.'')),
                                   (''context_used'', JStr [])], 500)
                           else
                             (let graph_context =
                                    returned (retrieve_graph_context query_embedding user_query s)
                              in case generate_content env
                                        \<lparr>conversation_context = format_history conversation_history,
                                         user_question = user_query,
                                         context_from_graph = graph_context\<rparr> of
                                   Inl e \<Rightarrow> Inl e
                                 | Inr answer \<Rightarrow>
                                     Inr ([(''response'', JStr answer),
                                           (''context_used'', JStr graph_context)], 200))))))"

text \<open>Lines 552 to 579.\<close>

definition health_check :: "'v env \<Rightarrow> response" where
  "health_check env =
     (case get_neo4j_driver env of
        Inl e \<Rightarrow>
          ([(''status'', JStr ''ERROR''),
            (''message'', JStr (''Neo4j database connection failed: '' @ exn_str e))], 503)
      | Inr s \<Rightarrow>
          (case verify_connectivity env of
             Some (ConnectionError m) \<Rightarrow>
               ([(''status'', JStr ''ERROR''),
                 (''message'', JStr (''Neo4j database connection failed: '' @ m))], 503)
           | Some e \<Rightarrow>
               ([(''status'', JStr ''ERROR''),
                 (''message'', JStr (''Unexpected health check error: '' @ exn_str e))], 500)
           | None \<Rightarrow>
               (case get_embeddings env [''health check test''] of
                  Inl ve \<Rightarrow>
                    ([(''status'', JStr ''ERROR''),
                      (''message'', JStr (''Vertex AI embeddings service unavailable: ''
                                          @ exn_str ve))], 503)
                | Inr v \<Rightarrow>
                    ([(''status'', JStr ''OK''),
                      (''message'', JStr ''Service is healthy and connected to dependencies.'')],
                     200))))"

text \<open>Lines 607 to 621: what \<^verbatim>\<open>clear_database\<close> does with an exception of one of its two
  statements.\<close>

fun clear_failed :: "exn \<Rightarrow> exn + response" where
  "clear_failed (ConnectionError m) = Inl (ConnectionError m)"
| "clear_failed (Neo4jError m) =
     Inr ([(''success'', JBool False), (''message'', JStr (''Database error: '' @ m))], 500)"
| "clear_failed e =
     Inr ([(''success'', JBool False), (''message'', JStr (''Unexpected error: '' @ exn_str e))], 500)"

text \<open>Lines 582 to 621; only the response is modelled, not the emptied store.\<close>

definition clear_database :: "'v env \<Rightarrow> exn + response" where
  "clear_database env =
     (case get_neo4j_driver env of
        Inl e \<Rightarrow> Inl e
      | Inr s \<Rightarrow>
          (case fault s DeleteRelationships of
             Some e \<Rightarrow> clear_failed e
           | None \<Rightarrow>
               (case fault s DeleteNodes of
                  Some e \<Rightarrow> clear_failed e
                | None \<Rightarrow>
                    Inr ([(''success'', JBool True),
                          (''message'', JStr ''Database cleared successfully'')], 200))))"

text \<open>A request to the application: one of the three routes, or a path that has no route
  (which the framework answers through the 404 error).\<close>

datatype request = PostChat chat_request | GetHealthz | PostClearDatabase | Unrouted

definition serve :: "'v env \<Rightarrow> request \<Rightarrow> response" where
  "serve env req =
     (case req of
        PostChat r \<Rightarrow> (case chat_with_graph env r of Inl e \<Rightarrow> handle_exception e | Inr resp \<Rightarrow> resp)
      | GetHealthz \<Rightarrow> health_check env
      | PostClearDatabase \<Rightarrow>
          (case clear_database env of Inl e \<Rightarrow> handle_exception e | Inr resp \<Rightarrow> resp)
      | Unrouted \<Rightarrow> handle_exception (HTTPException 404 []))"

text \<open>The keys of a body, in the order of the source.\<close>

definition keys :: "response \<Rightarrow> string list" where
  "keys resp = map fst (fst resp)"

definition envelope_keys :: "string list" where
  "envelope_keys = [''status'', ''message'', ''error_type'']"

section \<open>A small knowledge graph\<close>

text \<open>
  Five nodes: the functions \<^verbatim>\<open>parseConfig\<close> (in \<^verbatim>\<open>src/config.py\<close>), \<^verbatim>\<open>loadSettings\<close>,
  a second \<^verbatim>\<open>parseConfig\<close> (in \<^verbatim>\<open>tests/test_config.py\<close>) and \<^verbatim>\<open>readFile\<close>, and the file
  \<^verbatim>\<open>src/config.py\<close>.  The relationships are
  \<^verbatim>\<open>(1)-[:CALLS]->(2)\<close>, \<^verbatim>\<open>(3)-[:CALLS]->(4)\<close>, \<^verbatim>\<open>(4)-[:CALLS]->(2)\<close> and
  \<^verbatim>\<open>(5)-[:CONTAINS]->(1)\<close>.
\<close>

definition node_parse :: node where
  "node_parse =
     \<lparr>nid = 1, n_labels = [''Function''], n_name = Some ''parseConfig'',
      n_file_path = Some ''src/config.py'', n_path = None,
      n_description = Some ''Parses the configuration.'',
      n_context_sample = Some ''def parseConfig(): ...'', n_repo_id = None\<rparr>"

definition node_load :: node where
  "node_load =
     \<lparr>nid = 2, n_labels = [''Function''], n_name = Some ''loadSettings'',
      n_file_path = Some ''src/settings.py'', n_path = None,
      n_description = Some ''Loads settings and does validation.'',
      n_context_sample = None, n_repo_id = None\<rparr>"

definition node_parse_test :: node where
  "node_parse_test =
     \<lparr>nid = 3, n_labels = [''Function''], n_name = Some ''parseConfig'',
      n_file_path = Some ''tests/test_config.py'', n_path = None,
      n_description = Some ''Test double.'',
      n_context_sample = None, n_repo_id = None\<rparr>"

definition node_read :: node where
  "node_read =
     \<lparr>nid = 4, n_labels = [''Function''], n_name = Some ''readFile'',
      n_file_path = Some ''src/io.py'', n_path = None,
      n_description = Some ''Reads a file.'',
      n_context_sample = None, n_repo_id = None\<rparr>"

definition node_file :: node where
  "node_file =
     \<lparr>nid = 5, n_labels = [''File'', ''PythonModule''], n_name = Some ''config.py'',
      n_file_path = None, n_path = Some ''src/config.py'',
      n_description = Some ''Configuration module.'',
      n_context_sample = None, n_repo_id = Some ''repo1''\<rparr>"

text \<open>
  The session on it.  The function index answers with \<^verbatim>\<open>loadSettings\<close> (0.7),
  \<^verbatim>\<open>parseConfig\<close> of \<^verbatim>\<open>src/config.py\<close> (0.82) and \<^verbatim>\<open>readFile\<close> (0.5), the file index with
  the file (0.9).  \<open>expandConfig\<close> lists, breadth first, the paths of one or two hops over the
  relationships in either direction that reach each node once; \<open>allSimplePaths\<close> the simple
  paths of at most three hops.  No query fails.
\<close>

definition demo_session :: "(real list) session" where
  "demo_session =
     \<lparr>nodes = [node_parse, node_load, node_parse_test, node_read, node_file],
      relationships = [(1, ''CALLS'', 2), (3, ''CALLS'', 4), (4, ''CALLS'', 2), (5, ''CONTAINS'', 1)],
      queryNodes = (\<lambda>index k e.
         if index = ''function_index'' then [(node_load, 0.7), (node_parse, 0.82), (node_read, 0.5)]
         else if index = ''file_index'' then [(node_file, 0.9)]
         else []),
      expandConfig = (\<lambda>start.
         if nid start = 1 then
           [(node_parse, [node_load]), (node_parse, [node_file]), (node_parse, [node_load, node_read])]
         else if nid start = 2 then
           [(node_load, [node_parse]), (node_load, [node_read]), (node_load, [node_parse, node_file]),
            (node_load, [node_read, node_parse_test])]
         else if nid start = 3 then
           [(node_parse_test, [node_read]), (node_parse_test, [node_read, node_load])]
         else if nid start = 4 then
           [(node_read, [node_parse_test]), (node_read, [node_load]), (node_read, [node_load, node_parse])]
         else if nid start = 5 then
           [(node_file, [node_parse]), (node_file, [node_parse, node_load])]
         else []),
      allSimplePaths = (\<lambda>a b maxLength.
         if nid a = 1 \<and> nid b = 2 then
           [(node_parse, [node_load])]
         else if nid a = 3 \<and> nid b = 2 then
           [(node_parse_test, [node_read, node_load])]
         else []),
      fault = (\<lambda>q. None)\<rparr>"

text \<open>The same session when the traversal query of stage 2 fails.\<close>

definition traversal_fails :: "(real list) session" where
  "traversal_fails =
     demo_session\<lparr>fault := (\<lambda>q. if q = TraversalQuery then Some (Neo4jError ''apoc'') else None)\<rparr>"

text \<open>A session whose function index answers with a node that has no \<^verbatim>\<open>file_path\<close>
  (0.95) before \<^verbatim>\<open>parseConfig\<close> (0.82), and whose file index answers with a file node that
  has no \<^verbatim>\<open>path\<close> (0.8).\<close>

definition node_orphan :: node where
  "node_orphan =
     \<lparr>nid = 6, n_labels = [''Function''], n_name = Some ''orphan'',
      n_file_path = None, n_path = None, n_description = None,
      n_context_sample = None, n_repo_id = None\<rparr>"

definition node_pathless :: node where
  "node_pathless =
     \<lparr>nid = 7, n_labels = [''File''], n_name = Some ''notes'',
      n_file_path = None, n_path = None, n_description = None,
      n_context_sample = None, n_repo_id = None\<rparr>"

definition orphan_session :: "(real list) session" where
  "orphan_session =
     demo_session\<lparr>queryNodes := (\<lambda>index k e.
        if index = ''function_index'' then [(node_orphan, 0.95), (node_parse, 0.82)]
        else if index = ''file_index'' then [(node_pathless, 0.8)]
        else [])\<rparr>"

section \<open>Predicates on runs\<close>

text \<open>The queries of a trace that the session answers without an exception.\<close>

definition clean :: "'e session \<Rightarrow> query list \<Rightarrow> bool" where
  "clean s tr = list_all (\<lambda>q. fault s q = None) tr"

text \<open>A trace that ends with the result \<open>r\<close>: without an exception every query was answered;
  with the exception \<open>x\<close> either every query was answered (the exception is Python's own), or
  all but the last were and the last raised \<open>x\<close>.\<close>

fun trace_ok :: "'e session \<Rightarrow> exn option \<Rightarrow> query list \<Rightarrow> bool" where
  "trace_ok s None tr = clean s tr"
| "trace_ok s (Some x) tr =
     (clean s tr \<or> (tr \<noteq> [] \<and> clean s (butlast tr) \<and> fault s (last tr) = Some x))"

text \<open>The second state continues the first: its context has more (non-empty) sentences at
  the end, its trace more queries.\<close>

definition grows :: "st \<Rightarrow> st \<Rightarrow> bool" where
  "grows \<sigma> \<sigma>' =
     ((\<exists>new. context_list \<sigma>' = context_list \<sigma> @ new \<and> list_all (\<lambda>t. t \<noteq> []) new)
      \<and> (\<exists>more. ran \<sigma>' = ran \<sigma> @ more))"

text \<open>The state in which \<^verbatim>\<open>retrieve_graph_context\<close> starts, and the evidence it has gathered
  when its \<^verbatim>\<open>try\<close> block is left.\<close>

definition initial :: st where
  "initial = \<lparr>context_list = [], ran = []\<rparr>"

definition evidence :: "'e \<Rightarrow> string \<Rightarrow> 'e session \<Rightarrow> string list" where
  "evidence query_embedding user_query s =
     context_list (snd (try_body s query_embedding user_query initial))"


text \<open>The merged results of the vector stage on the small graph, and a query about it.\<close>

definition demo_results :: "vrow list" where
  "demo_results = function_query demo_session [] @ file_query demo_session []"

definition demo_question :: string where
  "demo_question = ''how does parseConfig work''"

text \<open>A graph with one function whose file path contains the character \<^verbatim>\<open>-\<close>; the function
  index answers with it.\<close>

definition node_dash :: node where
  "node_dash =
     \<lparr>nid = 8, n_labels = [''Function''], n_name = Some ''main'',
      n_file_path = Some ''my-app/main.py'', n_path = None,
      n_description = Some ''Entry point.'', n_context_sample = None, n_repo_id = None\<rparr>"

definition dash_session :: "(real list) session" where
  "dash_session =
     demo_session\<lparr>nodes := [node_dash],
       queryNodes := (\<lambda>index k e. if index = ''function_index'' then [(node_dash, 0.9)] else []),
       expandConfig := (\<lambda>start. []),
       allSimplePaths := (\<lambda>a b maxLength. [])\<rparr>"

text \<open>The key lists of the bodies that the application sends with a status other than 200:
  the error envelope, the answer to a missing query, the answer to an empty embedding, the
  failed health check and the failed clearing of the database.\<close>

definition error_shapes :: "string list list" where
  "error_shapes =
     [envelope_keys, [''response''], [''response'', ''context_used''], [''status'', ''message''],
      [''success'', ''message'']]"

text \<open>Collaborators that all work, on the small graph; and the same with an unreachable
  database.\<close>

definition demo_env :: "real env" where
  "demo_env =
     \<lparr>driver = Inr demo_session, verify_connectivity = None,
      get_embeddings = (\<lambda>texts. Inr [[1]]),
      generate_content = (\<lambda>p. Inr ''The answer.'')\<rparr>"

definition down_env :: "real env" where
  "down_env = demo_env\<lparr>driver := Inl (ServiceUnavailable ''connection refused'')\<rparr>"

section \<open>The run as a plan cut at its first failure\<close>

text \<open>
  A step of \<^verbatim>\<open>retrieve_graph_context\<close>: a query handed to \<^verbatim>\<open>session.run\<close>, a sentence
  appended to \<^verbatim>\<open>context\<close>, or an exception that Python raises by itself.
\<close>

datatype step = Send query | Say string | Raise exn

text \<open>The steps of a rendering loop over rows.\<close>

definition say_rows :: "('r \<Rightarrow> exn + string) \<Rightarrow> 'r list \<Rightarrow> step list" where
  "say_rows f rows = map (\<lambda>res. case f res of Inl x \<Rightarrow> Raise x | Inr t \<Rightarrow> Say t) rows"

text \<open>The steps that each stage takes when nothing fails before them.  They depend on the
  store and the query only, not on \<open>fault\<close>.\<close>

definition vector_steps :: "'e session \<Rightarrow> 'e \<Rightarrow> step list" where
  "vector_steps s query_embedding =
     [Send FunctionQuery, Send FileQuery]
     @ say_rows (entity_sentence []) (function_query s query_embedding @ file_query s query_embedding)"

definition traversal_steps :: "'e session \<Rightarrow> vrow list \<Rightarrow> step list" where
  "traversal_steps s entity_results =
     (if entity_results \<noteq> [] then
        Send TraversalQuery
        # say_rows (entity_sentence ''Via graph traversal: '')
            (traversal_query s (entity_ids entity_results))
      else [])"

definition path_steps :: "'e session \<Rightarrow> vrow list \<Rightarrow> step list" where
  "path_steps s entity_results =
     (if length entity_results \<ge> 2 then
        Send PathQuery
        # say_rows (entity_sentence ''Via path connection: '')
            (path_query s (name (entity_results ! 0)) (name (entity_results ! 1)))
      else [])"

definition keyword_steps :: "'e session \<Rightarrow> string \<Rightarrow> step list" where
  "keyword_steps s user_query =
     (if extract_keywords user_query \<noteq> [] then
        Send NameQuery # say_rows name_sentence (name_query s (extract_keywords user_query))
        @ Send DescQuery # say_rows desc_sentence (desc_query s (extract_keywords user_query))
      else [])"

definition file_steps :: "'e session \<Rightarrow> file_row \<Rightarrow> step list" where
  "file_steps s res =
     [Say (file_sentence res), Send (FileEntitiesQuery (path res))]
     @ (case entities_info (file_entities_query s (path res)) of
          Inl x \<Rightarrow> [Raise x]
        | Inr info \<Rightarrow> if info \<noteq> [] then [Say (contains_sentence res info)] else [])"

definition file_stage_steps :: "'e session \<Rightarrow> vrow list \<Rightarrow> step list" where
  "file_stage_steps s entity_results =
     (if entity_results \<noteq> [] \<and> collect_file_paths entity_results \<noteq> [] then
        Send FileContextQuery
        # concat (map (file_steps s) (file_context_query s (collect_file_paths entity_results)))
      else [])"

definition planned_steps :: "'e session \<Rightarrow> 'e \<Rightarrow> string \<Rightarrow> step list" where
  "planned_steps s query_embedding user_query =
     (let entity_results = function_query s query_embedding @ file_query s query_embedding in
      vector_steps s query_embedding @ traversal_steps s entity_results
      @ path_steps s entity_results @ keyword_steps s user_query
      @ file_stage_steps s entity_results)"

text \<open>Taking steps until the first failure: a sentence is appended, a query is recorded and
  ends the run when the session raises for it, an exception of Python ends the run.\<close>

fun until_first_failure :: "'e session \<Rightarrow> step list \<Rightarrow> st \<Rightarrow> exn option \<times> st" where
  "until_first_failure s [] \<sigma> = (None, \<sigma>)"
| "until_first_failure s (Say t # rest) \<sigma> =
     until_first_failure s rest (\<sigma>\<lparr>context_list := context_list \<sigma> @ [t]\<rparr>)"
| "until_first_failure s (Send q # rest) \<sigma> =
     (case fault s q of
        Some x \<Rightarrow> (Some x, \<sigma>\<lparr>ran := ran \<sigma> @ [q]\<rparr>)
      | None \<Rightarrow> until_first_failure s rest (\<sigma>\<lparr>ran := ran \<sigma> @ [q]\<rparr>))"
| "until_first_failure s (Raise x # rest) \<sigma> = (Some x, \<sigma>)"

text \<open>A step that does not end the run; the sentences and the queries of a list of steps.\<close>

fun harmless :: "'e session \<Rightarrow> step \<Rightarrow> bool" where
  "harmless s (Say t) = True"
| "harmless s (Send q) = (fault s q = None)"
| "harmless s (Raise x) = False"

fun said :: "step list \<Rightarrow> string list" where
  "said [] = []"
| "said (Say t # rest) = t # said rest"
| "said (Send q # rest) = said rest"
| "said (Raise x # rest) = said rest"

fun sent :: "step list \<Rightarrow> query list" where
  "sent [] = []"
| "sent (Say t # rest) = sent rest"
| "sent (Send q # rest) = q # sent rest"
| "sent (Raise x # rest) = sent rest"

text \<open>The small graph when the name query of stage 4 fails.\<close>

definition name_fails :: "(real list) session" where
  "name_fails =
     demo_session\<lparr>fault := (\<lambda>q. if q = NameQuery then Some (Neo4jError ''down'') else None)\<rparr>"

text \<open>The steps planned before the name query on the small graph.\<close>

definition before_name_query :: "step list" where
  "before_name_query = take 16 (planned_steps name_fails [] demo_question)"

section \<open>Properties of the string functions\<close>


















section \<open>Claims about the keyword extraction\<close>





section \<open>Claims about the vector stage\<close>

lemma sorted_desc_sort_key:
  "sorted_wrt (\<lambda>a b. snd b \<le> (snd a :: real)) (sort_key (\<lambda>h. - snd h) xs)"
proof -
  have "sorted (map (\<lambda>h. - snd h) (sort_key (\<lambda>h. - snd h) xs))"
    by (rule sorted_sort_key)
  then show ?thesis by (simp add: sorted_map)
qed

lemma score_function_row: "score (function_row h) = snd h"
  by (simp add: function_row_def)

lemma score_file_row_of: "score (file_row_of h) = snd h"
  by (simp add: file_row_of_def)

lemma function_query_sorted:
  "sorted_wrt (\<lambda>a b. score b \<le> score a) (function_query s e)"
  unfolding function_query_def function_hits_def
  by (simp add: sorted_wrt_map score_function_row sorted_desc_sort_key)

lemma file_query_sorted:
  "sorted_wrt (\<lambda>a b. score b \<le> score a) (file_query s e)"
  unfolding file_query_def file_hits_def
  by (simp add: sorted_wrt_map score_file_row_of sorted_desc_sort_key)

lemma vector_stage_results:
  assumes "vector_stage s e \<sigma> = (Inr er, \<sigma>')"
  shows "er = function_query s e @ file_query s e"
  using assms
  by (auto simp: vector_stage_def run_def Let_def split: option.splits prod.splits sum.splits)

text \<open>
  Claim C4.  The rows of the function query and the rows of the file query are each in
  descending order of score, and the merged list \<^verbatim>\<open>entity_results\<close> of the vector stage
  is the function rows followed by the file rows.
\<close>

theorem vector_results_order:
  "sorted_wrt (\<lambda>a b. score b \<le> score a) (function_query s e)
   \<and> sorted_wrt (\<lambda>a b. score b \<le> score a) (file_query s e)
   \<and> (vector_stage s e \<sigma> = (Inr entity_results, \<sigma>')
        \<longrightarrow> take (length (function_query s e)) entity_results = function_query s e
          \<and> drop (length (function_query s e)) entity_results = file_query s e)"
proof (intro conjI impI)
  assume "vector_stage s e \<sigma> = (Inr entity_results, \<sigma>')"
  then have eq: "entity_results = function_query s e @ file_query s e"
    by (rule vector_stage_results)
  show "take (length (function_query s e)) entity_results = function_query s e"
    by (simp add: eq)
  show "drop (length (function_query s e)) entity_results = file_query s e"
    by (simp add: eq)
qed (rule function_query_sorted file_query_sorted)+

theorem vector_results_order_witness:
  "map score (function_query demo_session []) = [0.82, 0.7]
   \<and> map score (file_query demo_session []) = [0.9]
   \<and> fst (vector_stage demo_session [] \<lparr>context_list = [], ran = []\<rparr>)
       = Inr (function_query demo_session [] @ file_query demo_session [])
   \<and> take (length (function_query demo_session []))
        (function_query demo_session [] @ file_query demo_session [])
       = function_query demo_session []
   \<and> sorted_wrt (\<lambda>a b. score b \<le> score a) (function_query demo_session [])"
proof -
  have a: "map score (function_query demo_session []) = [0.82, 0.7]"
    by code_simp
  have b: "map score (file_query demo_session []) = [0.9]"
    by code_simp
  have c: "fst (vector_stage demo_session [] \<lparr>context_list = [], ran = []\<rparr>)
       = Inr (function_query demo_session [] @ file_query demo_session [])"
    by code_simp
  then obtain \<sigma>' where
    d: "vector_stage demo_session [] \<lparr>context_list = [], ran = []\<rparr>
         = (Inr (function_query demo_session [] @ file_query demo_session []), \<sigma>')"
    by (metis prod.collapse)
  note T = vector_results_order [of demo_session "[]" "\<lparr>context_list = [], ran = []\<rparr>"
      "function_query demo_session [] @ file_query demo_session []" \<sigma>']
  from T d have e: "take (length (function_query demo_session []))
        (function_query demo_session [] @ file_query demo_session [])
       = function_query demo_session []"
    by blast
  from T have f: "sorted_wrt (\<lambda>a b. score b \<le> score a) (function_query demo_session [])"
    by blast
  from a b c e f show ?thesis by blast
qed

lemma set_function_hits:
  "set (function_hits s e)
     = {h \<in> set (queryNodes s ''function_index'' 5 e). snd h > 0.6 \<and> n_file_path (fst h) \<noteq> None}"
  by (auto simp: function_hits_def)

lemma set_file_hits:
  "set (file_hits s e) = {h \<in> set (queryNodes s ''file_index'' 5 e). snd h > 0.6}"
  by (auto simp: file_hits_def)

text \<open>
  Claim C10.  A neighbour from the function index whose node has no \<^verbatim>\<open>file_path\<close> is not
  among the function results, whatever its score; the file results are exactly the
  neighbours from the file index with a score above 0.6, with no test of a property.
\<close>

theorem function_index_needs_file_path:
  "(n_file_path n = None \<longrightarrow> (n, sc) \<notin> set (function_hits s e))
   \<and> function_query s e = map function_row (function_hits s e)
   \<and> set (file_hits s e) = {h \<in> set (queryNodes s ''file_index'' 5 e). snd h > 0.6}
   \<and> file_query s e = map file_row_of (file_hits s e)
   \<and> length (file_hits s e) = length (filter (\<lambda>h. snd h > 0.6) (queryNodes s ''file_index'' 5 e))"
  by (auto simp: set_function_hits set_file_hits function_query_def file_query_def file_hits_def)

theorem function_index_needs_file_path_witness:
  "n_file_path node_orphan = None
   \<and> (node_orphan, 0.95) \<in> set (queryNodes orphan_session ''function_index'' 5 [])
   \<and> (node_orphan, 0.95) \<notin> set (function_hits orphan_session [])
   \<and> n_path node_pathless = None
   \<and> file_hits orphan_session [] = [(node_pathless, 0.8)]"
proof -
  have a: "n_file_path node_orphan = None"
    by (simp add: node_orphan_def)
  have b: "(node_orphan, 0.95) \<in> set (queryNodes orphan_session ''function_index'' 5 [])"
    by (simp add: orphan_session_def)
  from a function_index_needs_file_path [of node_orphan "0.95" orphan_session "[]"]
  have c: "(node_orphan, 0.95) \<notin> set (function_hits orphan_session [])"
    by blast
  have d: "n_path node_pathless = None"
    by (simp add: node_pathless_def)
  have e: "file_hits orphan_session [] = [(node_pathless, 0.8)]"
    by (simp add: file_hits_def orphan_session_def)
  from a b c d e show ?thesis by blast
qed

section \<open>Claims about generate_embeddings\<close>

text \<open>
  Claim C8, as amended.  For the empty text, \<^verbatim>\<open>generate_embeddings\<close> returns the empty
  list, logs a warning and does not call the provider; for every other text, a
  whitespace-only one included, it calls the provider once with that text.
\<close>

theorem generate_embeddings_empty_only:
  "generate_embeddings g [] =
     \<lparr>result = Inr [], provider_calls = [],
      emb_log = [LogWarning ''Attempted to generate embedding for empty text.'']\<rparr>
   \<and> (t \<noteq> [] \<longrightarrow> provider_calls (generate_embeddings g t) = [[t]])"
  by (auto simp: generate_embeddings_def split: sum.splits list.splits)

text \<open>Claim C8 as stated fails for a text of two spaces: the provider is called and its
  embedding is returned.\<close>

theorem generate_embeddings_blank_counterexample:
  "list_all is_space ''  ''
   \<and> provider_calls (generate_embeddings (\<lambda>ts. Inr [[1::real]]) ''  '') = [[''  '']]
   \<and> result (generate_embeddings (\<lambda>ts. Inr [[1::real]]) ''  '') = Inr [1]"
  by code_simp

theorem generate_embeddings_empty_only_witness:
  "''hello'' \<noteq> []
   \<and> provider_calls (generate_embeddings (\<lambda>ts. Inr [[1::real]]) ''hello'') = [[''hello'']]"
  using generate_embeddings_empty_only [of "\<lambda>ts. Inr [[1::real]]" "''hello''"]
  by simp

section \<open>The stages extend the context and the trace\<close>

lemma grows_refl: "grows \<sigma> \<sigma>"
  by (simp add: grows_def)

lemma grows_trans: "grows \<sigma> \<sigma>1 \<Longrightarrow> grows \<sigma>1 \<sigma>2 \<Longrightarrow> grows \<sigma> \<sigma>2"
  by (auto simp: grows_def)

lemma grows_append: "t \<noteq> [] \<Longrightarrow> grows \<sigma> (\<sigma>\<lparr>context_list := context_list \<sigma> @ [t]\<rparr>)"
  by (simp add: grows_def)

lemma entity_sentence_nonempty: "entity_sentence prefix res = Inr t \<Longrightarrow> t \<noteq> []"
  by (auto simp: entity_sentence_def split: option.splits)

lemma name_sentence_nonempty: "name_sentence res = Inr t \<Longrightarrow> t \<noteq> []"
  by (auto simp: name_sentence_def split: option.splits)

lemma desc_sentence_nonempty: "desc_sentence res = Inr t \<Longrightarrow> t \<noteq> []"
  by (auto simp: desc_sentence_def split: option.splits)

lemma file_sentence_nonempty: "file_sentence res \<noteq> []"
  by (simp add: file_sentence_def)

lemma contains_sentence_nonempty: "contains_sentence res info \<noteq> []"
  by (simp add: contains_sentence_def)

lemma append_all_effect:
  assumes "\<And>res t. f res = Inr t \<Longrightarrow> t \<noteq> []"
  shows "append_all f rs \<sigma> = (r, \<sigma>') \<Longrightarrow>
         \<exists>new. \<sigma>' = \<sigma>\<lparr>context_list := context_list \<sigma> @ new\<rparr> \<and> list_all (\<lambda>t. t \<noteq> []) new"
proof (induction rs arbitrary: \<sigma>)
  case Nil
  then have "\<sigma>' = \<sigma>\<lparr>context_list := context_list \<sigma> @ []\<rparr>" by simp
  moreover have "list_all (\<lambda>t. t \<noteq> []) ([] :: string list)" by simp
  ultimately show ?case by blast
next
  case (Cons a rs)
  show ?case
  proof (cases "f a")
    case (Inl x)
    with Cons.prems have "\<sigma>' = \<sigma>\<lparr>context_list := context_list \<sigma> @ []\<rparr>" by simp
    moreover have "list_all (\<lambda>t. t \<noteq> []) ([] :: string list)" by simp
    ultimately show ?thesis by blast
  next
    case (Inr t)
    with Cons.prems have "append_all f rs (\<sigma>\<lparr>context_list := context_list \<sigma> @ [t]\<rparr>) = (r, \<sigma>')"
      by simp
    from Cons.IH [OF this] obtain new where
      n: "\<sigma>' = \<sigma>\<lparr>context_list := context_list \<sigma> @ [t] @ new\<rparr>" "list_all (\<lambda>t. t \<noteq> []) new"
      by auto
    moreover have "t \<noteq> []" using Inr assms by blast
    ultimately have "\<sigma>' = \<sigma>\<lparr>context_list := context_list \<sigma> @ (t # new)\<rparr> \<and> list_all (\<lambda>t. t \<noteq> []) (t # new)"
      by simp
    then show ?thesis by blast
  qed
qed

lemma entity_append_effect:
  "append_all (entity_sentence p) rs \<sigma> = (r, \<sigma>') \<Longrightarrow>
     \<exists>new. \<sigma>' = \<sigma>\<lparr>context_list := context_list \<sigma> @ new\<rparr> \<and> list_all (\<lambda>t. t \<noteq> []) new"
  by (rule append_all_effect [of "entity_sentence p"]) (auto dest: entity_sentence_nonempty)

lemma name_append_effect:
  "append_all name_sentence rs \<sigma> = (r, \<sigma>') \<Longrightarrow>
     \<exists>new. \<sigma>' = \<sigma>\<lparr>context_list := context_list \<sigma> @ new\<rparr> \<and> list_all (\<lambda>t. t \<noteq> []) new"
  by (rule append_all_effect [of name_sentence]) (auto dest: name_sentence_nonempty)

lemma desc_append_effect:
  "append_all desc_sentence rs \<sigma> = (r, \<sigma>') \<Longrightarrow>
     \<exists>new. \<sigma>' = \<sigma>\<lparr>context_list := context_list \<sigma> @ new\<rparr> \<and> list_all (\<lambda>t. t \<noteq> []) new"
  by (rule append_all_effect [of desc_sentence]) (auto dest: desc_sentence_nonempty)

lemma vector_stage_grows: "vector_stage s e \<sigma> = (r, \<sigma>') \<Longrightarrow> grows \<sigma> \<sigma>'"
  unfolding vector_stage_def Let_def run_def
  by (auto split: prod.splits sum.splits option.splits simp: grows_def
        dest!: entity_append_effect)

lemma traversal_stage_grows: "traversal_stage s er \<sigma> = (r, \<sigma>') \<Longrightarrow> grows \<sigma> \<sigma>'"
  unfolding traversal_stage_def Let_def run_def
  by (auto split: prod.splits sum.splits option.splits if_splits simp: grows_def
        dest!: entity_append_effect)

lemma path_stage_grows: "path_stage s er \<sigma> = (r, \<sigma>') \<Longrightarrow> grows \<sigma> \<sigma>'"
  unfolding path_stage_def Let_def run_def
  by (auto split: prod.splits sum.splits option.splits if_splits simp: grows_def
        dest!: entity_append_effect)

lemma keyword_stage_grows: "keyword_stage s q \<sigma> = (r, \<sigma>') \<Longrightarrow> grows \<sigma> \<sigma>'"
  unfolding keyword_stage_def Let_def run_def
  by (auto split: prod.splits sum.splits option.splits if_splits simp: grows_def
        dest!: name_append_effect desc_append_effect)

lemma file_loop_grows: "file_loop s rs \<sigma> = (r, \<sigma>') \<Longrightarrow> grows \<sigma> \<sigma>'"
proof (induction rs arbitrary: \<sigma>)
  case Nil
  then show ?case by (simp add: grows_def)
next
  case (Cons res rest)
  let ?\<sigma>1 = "\<sigma>\<lparr>context_list := context_list \<sigma> @ [file_sentence res],
                 ran := ran \<sigma> @ [FileEntitiesQuery (path res)]\<rparr>"
  have g1: "grows \<sigma> ?\<sigma>1" by (simp add: grows_def file_sentence_nonempty)
  show ?case
  proof (cases "fault s (FileEntitiesQuery (path res))")
    case (Some x)
    with Cons.prems have "\<sigma>' = ?\<sigma>1" by (simp add: run_def)
    with g1 show ?thesis by simp
  next
    case None
    show ?thesis
    proof (cases "entities_info (file_entities_query s (path res))")
      case (Inl x)
      with Cons.prems None have "\<sigma>' = ?\<sigma>1" by (simp add: run_def)
      with g1 show ?thesis by simp
    next
      case (Inr info)
      let ?\<sigma>2 = "if info \<noteq> [] then ?\<sigma>1\<lparr>context_list := context_list ?\<sigma>1 @ [contains_sentence res info]\<rparr>
                  else ?\<sigma>1"
      have g2: "grows \<sigma> ?\<sigma>2"
        by (simp add: grows_def file_sentence_nonempty contains_sentence_nonempty)
      from Cons.prems None Inr have "file_loop s rest ?\<sigma>2 = (r, \<sigma>')" by (simp add: run_def)
      then have "grows ?\<sigma>2 \<sigma>'" by (rule Cons.IH)
      with g2 show ?thesis by (rule grows_trans)
    qed
  qed
qed

lemma file_stage_grows: "file_stage s er \<sigma> = (r, \<sigma>') \<Longrightarrow> grows \<sigma> \<sigma>'"
proof -
  assume a: "file_stage s er \<sigma> = (r, \<sigma>')"
  let ?\<sigma>1 = "\<sigma>\<lparr>ran := ran \<sigma> @ [FileContextQuery]\<rparr>"
  have g1: "grows \<sigma> ?\<sigma>1" by (simp add: grows_def)
  from a have "\<sigma>' = \<sigma> \<or> \<sigma>' = ?\<sigma>1 \<or> (\<exists>rows. file_loop s rows ?\<sigma>1 = (r, \<sigma>'))"
    unfolding file_stage_def Let_def run_def
    by (auto split: prod.splits sum.splits option.splits if_splits)
  then show ?thesis
    using g1 grows_refl file_loop_grows grows_trans by blast
qed

lemma try_body_grows: "try_body s e q \<sigma> = (r, \<sigma>') \<Longrightarrow> grows \<sigma> \<sigma>'"
  unfolding try_body_def
  by (auto split: prod.splits sum.splits option.splits
        dest!: vector_stage_grows traversal_stage_grows path_stage_grows keyword_stage_grows
               file_stage_grows)
     (blast intro: grows_trans)+

lemma clean_simps:
  "clean s [] = True"
  "clean s (q # tr) = (fault s q = None \<and> clean s tr)"
  "clean s (tr @ tr') = (clean s tr \<and> clean s tr')"
  by (simp_all add: clean_def)

lemma vector_stage_trace:
  "clean s (ran \<sigma>) \<Longrightarrow> vector_stage s e \<sigma> = (r, \<sigma>') \<Longrightarrow>
     (case r of Inl x \<Rightarrow> trace_ok s (Some x) (ran \<sigma>') | Inr er \<Rightarrow> clean s (ran \<sigma>'))"
  unfolding vector_stage_def Let_def run_def
  by (auto split: prod.splits sum.splits option.splits simp: clean_simps butlast_append
        dest!: entity_append_effect)

lemma traversal_stage_trace:
  "clean s (ran \<sigma>) \<Longrightarrow> traversal_stage s er \<sigma> = (r, \<sigma>') \<Longrightarrow> trace_ok s r (ran \<sigma>')"
  unfolding traversal_stage_def Let_def run_def
  by (cases r) (auto split: prod.splits sum.splits option.splits if_splits simp: clean_simps butlast_append
        dest!: entity_append_effect)

lemma path_stage_trace:
  "clean s (ran \<sigma>) \<Longrightarrow> path_stage s er \<sigma> = (r, \<sigma>') \<Longrightarrow> trace_ok s r (ran \<sigma>')"
  unfolding path_stage_def Let_def run_def
  by (cases r) (auto split: prod.splits sum.splits option.splits if_splits simp: clean_simps butlast_append
        dest!: entity_append_effect)

lemma keyword_stage_trace:
  "clean s (ran \<sigma>) \<Longrightarrow> keyword_stage s q \<sigma> = (r, \<sigma>') \<Longrightarrow> trace_ok s r (ran \<sigma>')"
  unfolding keyword_stage_def Let_def run_def
  by (cases r) (auto split: prod.splits sum.splits option.splits if_splits simp: clean_simps butlast_append
        dest!: name_append_effect desc_append_effect)

lemma file_loop_trace:
  "clean s (ran \<sigma>) \<Longrightarrow> file_loop s rs \<sigma> = (r, \<sigma>') \<Longrightarrow> trace_ok s r (ran \<sigma>')"
proof (induction rs arbitrary: \<sigma>)
  case Nil
  then show ?case by simp
next
  case (Cons res rest)
  let ?q = "FileEntitiesQuery (path res)"
  let ?\<sigma>1 = "\<sigma>\<lparr>context_list := context_list \<sigma> @ [file_sentence res], ran := ran \<sigma> @ [?q]\<rparr>"
  show ?case
  proof (cases "fault s ?q")
    case (Some x)
    show ?thesis using Cons.prems by (auto simp: run_def Some clean_simps)
  next
    case None
    then have c1: "clean s (ran ?\<sigma>1)" using Cons.prems(1) by (simp add: clean_simps)
    show ?thesis
    proof (cases "entities_info (file_entities_query s (path res))")
      case (Inl x)
      show ?thesis using Cons.prems c1 by (auto simp: run_def None Inl clean_simps)
    next
      case (Inr info)
      let ?\<sigma>2 = "if info \<noteq> [] then ?\<sigma>1\<lparr>context_list := context_list ?\<sigma>1 @ [contains_sentence res info]\<rparr>
                  else ?\<sigma>1"
      have c2: "clean s (ran ?\<sigma>2)" using c1 by simp
      from Cons.prems None Inr have "file_loop s rest ?\<sigma>2 = (r, \<sigma>')" by (simp add: run_def)
      with c2 show ?thesis by (rule Cons.IH)
    qed
  qed
qed

lemma file_stage_trace:
  assumes "clean s (ran \<sigma>)" and "file_stage s er \<sigma> = (r, \<sigma>')"
  shows "trace_ok s r (ran \<sigma>')"
proof -
  let ?\<sigma>1 = "\<sigma>\<lparr>ran := ran \<sigma> @ [FileContextQuery]\<rparr>"
  from assms(2) have
    "(r = None \<and> \<sigma>' = \<sigma>)
     \<or> (\<exists>x. fault s FileContextQuery = Some x \<and> r = Some x \<and> \<sigma>' = ?\<sigma>1)
     \<or> (fault s FileContextQuery = None \<and> (\<exists>rows. file_loop s rows ?\<sigma>1 = (r, \<sigma>')))"
    unfolding file_stage_def Let_def run_def
    by (auto split: prod.splits sum.splits option.splits if_splits)
  then show ?thesis
  proof (elim disjE conjE exE)
    assume "r = None" "\<sigma>' = \<sigma>"
    with assms(1) show ?thesis by simp
  next
    fix x assume "fault s FileContextQuery = Some x" "r = Some x" "\<sigma>' = ?\<sigma>1"
    with assms(1) show ?thesis by (simp add: clean_simps)
  next
    fix rows assume n: "fault s FileContextQuery = None" and l: "file_loop s rows ?\<sigma>1 = (r, \<sigma>')"
    from n assms(1) have "clean s (ran ?\<sigma>1)" by (simp add: clean_simps)
    then show ?thesis using l by (rule file_loop_trace)
  qed
qed

lemma try_body_trace:
  assumes "clean s (ran \<sigma>)" and "try_body s e q \<sigma> = (r, \<sigma>')"
  shows "trace_ok s r (ran \<sigma>')"
proof -
  obtain v \<sigma>1 where v: "vector_stage s e \<sigma> = (v, \<sigma>1)" by (cases "vector_stage s e \<sigma>")
  note t1 = vector_stage_trace [OF assms(1) v]
  show ?thesis
  proof (cases v)
    case (Inl x)
    with v assms(2) t1 show ?thesis by (simp add: try_body_def)
  next
    case (Inr er)
    with t1 have c1: "clean s (ran \<sigma>1)" by simp
    obtain r2 \<sigma>2 where tr: "traversal_stage s er \<sigma>1 = (r2, \<sigma>2)" by (cases "traversal_stage s er \<sigma>1")
    note t2 = traversal_stage_trace [OF c1 tr]
    show ?thesis
    proof (cases r2)
      case (Some x)
      with v Inr tr assms(2) t2 show ?thesis by (simp add: try_body_def)
    next
      case None
      with t2 have c2: "clean s (ran \<sigma>2)" by simp
      obtain r3 \<sigma>3 where pa: "path_stage s er \<sigma>2 = (r3, \<sigma>3)" by (cases "path_stage s er \<sigma>2")
      note t3 = path_stage_trace [OF c2 pa]
      show ?thesis
      proof (cases r3)
        case (Some x)
        with v Inr tr None pa assms(2) t3 show ?thesis by (simp add: try_body_def)
      next
        case n3: None
        with t3 have c3: "clean s (ran \<sigma>3)" by simp
        obtain r4 \<sigma>4 where kw: "keyword_stage s q \<sigma>3 = (r4, \<sigma>4)" by (cases "keyword_stage s q \<sigma>3")
        note t4 = keyword_stage_trace [OF c3 kw]
        show ?thesis
        proof (cases r4)
          case (Some x)
          with v Inr tr None pa n3 kw assms(2) t4 show ?thesis by (simp add: try_body_def)
        next
          case n4: None
          with t4 have c4: "clean s (ran \<sigma>4)" by simp
          from v Inr tr None pa n3 kw n4 assms(2) have "file_stage s er \<sigma>4 = (r, \<sigma>')"
            by (simp add: try_body_def)
          with c4 show ?thesis by (rule file_stage_trace)
        qed
      qed
    qed
  qed
qed

section \<open>Claims about the assembly and the failure of a stage\<close>

lemma join_nonempty: "xs \<noteq> [] \<Longrightarrow> list_all (\<lambda>t. t \<noteq> []) xs \<Longrightarrow> join sep xs \<noteq> []"
  by (induction sep xs rule: join.induct) auto

lemma evidence_sentences: "list_all (\<lambda>t. t \<noteq> []) (evidence e q s)"
proof -
  obtain r \<sigma>' where t: "try_body s e q initial = (r, \<sigma>')" by (cases "try_body s e q initial")
  then have "grows initial \<sigma>'" by (rule try_body_grows)
  with t show ?thesis by (auto simp: evidence_def grows_def initial_def)
qed

lemma returned_render: "returned (retrieve_graph_context e q s) = render_context (evidence e q s)"
  by (simp add: retrieve_graph_context_def evidence_def initial_def split: prod.splits)

lemma returned_nonempty: "returned (retrieve_graph_context e q s) \<noteq> []"
  using evidence_sentences [of e q s]
  by (simp add: returned_render render_context_def no_context_def join_nonempty)




lemma executed_trace:
  "trace_ok s (fst (try_body s e q initial)) (executed (retrieve_graph_context e q s))"
proof -
  obtain r \<sigma>' where t: "try_body s e q initial = (r, \<sigma>')" by (cases "try_body s e q initial")
  have "clean s (ran initial)" by (simp add: initial_def clean_def)
  then have "trace_ok s r (ran \<sigma>')" using t by (rule try_body_trace)
  with t show ?thesis
    by (simp add: retrieve_graph_context_def initial_def)
qed

lemma logged_caught:
  "logged (retrieve_graph_context e q s)
     = (case fst (try_body s e q initial) of None \<Rightarrow> [] | Some x \<Rightarrow> [log_caught x])"
  by (simp add: retrieve_graph_context_def initial_def split: prod.splits)

lemma failing_query_last:
  assumes f: "fault s qq = Some x" and m: "qq \<in> set (executed (retrieve_graph_context e q s))"
  shows "last (executed (retrieve_graph_context e q s)) = qq
         \<and> logged (retrieve_graph_context e q s) = [log_caught x]"
proof -
  let ?tr = "executed (retrieve_graph_context e q s)"
  have nc: "\<not> clean s ?tr" using f m by (auto simp: clean_def list_all_iff)
  have ok: "trace_ok s (fst (try_body s e q initial)) ?tr" by (rule executed_trace)
  show ?thesis
  proof (cases "fst (try_body s e q initial)")
    case None
    with ok nc show ?thesis by simp
  next
    case (Some y)
    with ok nc have ne: "?tr \<noteq> []" and cb: "clean s (butlast ?tr)" and l: "fault s (last ?tr) = Some y"
      by simp_all
    from ne have "set ?tr = set (butlast ?tr) \<union> {last ?tr}"
      by (metis append_butlast_last_id list.simps(15) set_append Un_insert_right sup_bot.right_neutral empty_set)
    moreover have "qq \<notin> set (butlast ?tr)" using cb f by (auto simp: clean_def list_all_iff)
    ultimately have "last ?tr = qq" using m by auto
    with l f have "y = x" by simp
    with Some \<open>last ?tr = qq\<close> show ?thesis by (simp add: logged_caught)
  qed
qed

lemma vector_evidence_kept:
  assumes "vector_stage s e initial = (Inr er, \<sigma>1)"
  shows "\<exists>rest. evidence e q s = context_list \<sigma>1 @ rest"
proof -
  obtain r \<sigma>' where t: "try_body s e q initial = (r, \<sigma>')" by (cases "try_body s e q initial")
  have "grows \<sigma>1 \<sigma>'"
    using t assms unfolding try_body_def
    by (auto split: prod.splits sum.splits option.splits
          dest!: traversal_stage_grows path_stage_grows keyword_stage_grows file_stage_grows
          simp: grows_refl)
       (blast intro: grows_trans)+
  with t show ?thesis by (auto simp: evidence_def grows_def)
qed

lemma vector_stage_ran:
  "vector_stage s e \<sigma> = (Inr er, \<sigma>1) \<Longrightarrow> ran \<sigma>1 = ran \<sigma> @ [FunctionQuery, FileQuery]"
  unfolding vector_stage_def Let_def run_def
  by (auto split: prod.splits sum.splits option.splits dest!: entity_append_effect)

lemma traversal_failure:
  assumes v: "vector_stage s e initial = (Inr er, \<sigma>1)" and ne: "er \<noteq> []"
    and f: "fault s TraversalQuery = Some x"
  shows "retrieve_graph_context e q s =
           \<lparr>returned = render_context (context_list \<sigma>1), logged = [log_caught x],
            executed = [FunctionQuery, FileQuery, TraversalQuery]\<rparr>"
proof -
  from v have "ran \<sigma>1 = [FunctionQuery, FileQuery]"
    by (auto dest: vector_stage_ran simp: initial_def)
  with v ne f show ?thesis
    by (simp add: retrieve_graph_context_def try_body_def traversal_stage_def run_def initial_def)
qed

lemma until_append:
  "until_first_failure s (xs @ ys) \<sigma> =
     (case until_first_failure s xs \<sigma> of
        (Some x, \<sigma>') \<Rightarrow> (Some x, \<sigma>')
      | (None, \<sigma>') \<Rightarrow> until_first_failure s ys \<sigma>')"
proof (induction xs arbitrary: \<sigma>)
  case Nil
  show ?case by simp
next
  case (Cons a xs)
  show ?case by (cases a) (simp_all add: Cons.IH split: option.splits)
qed

lemma until_say_rows: "until_first_failure s (say_rows f rows) \<sigma> = append_all f rows \<sigma>"
  by (induction rows arbitrary: \<sigma>) (simp_all add: say_rows_def split: sum.splits)

lemma until_send:
  "until_first_failure s (Send q # rest) \<sigma> =
     (case run s q rows \<sigma> of
        (Inl x, \<sigma>1) \<Rightarrow> (Some x, \<sigma>1)
      | (Inr r, \<sigma>1) \<Rightarrow> until_first_failure s rest \<sigma>1)"
  by (simp add: run_def split: option.splits)

lemma vector_stage_plan:
  "vector_stage s e \<sigma> =
     (case until_first_failure s (vector_steps s e) \<sigma> of
        (Some x, \<sigma>') \<Rightarrow> (Inl x, \<sigma>')
      | (None, \<sigma>') \<Rightarrow> (Inr (function_query s e @ file_query s e), \<sigma>'))"
  by (simp add: vector_stage_def vector_steps_def run_def until_say_rows
        split: option.splits prod.splits)

lemma traversal_stage_plan:
  "traversal_stage s er \<sigma> = until_first_failure s (traversal_steps s er) \<sigma>"
  by (simp add: traversal_stage_def traversal_steps_def run_def until_say_rows split: option.splits)

lemma path_stage_plan:
  "path_stage s er \<sigma> = until_first_failure s (path_steps s er) \<sigma>"
  by (simp add: path_stage_def path_steps_def run_def until_say_rows Let_def split: option.splits)

lemma keyword_stage_plan:
  "keyword_stage s q \<sigma> = until_first_failure s (keyword_steps s q) \<sigma>"
  by (simp add: keyword_stage_def keyword_steps_def run_def until_say_rows until_append Let_def
        split: option.splits prod.splits)

lemma file_loop_plan:
  "file_loop s rows \<sigma> = until_first_failure s (concat (map (file_steps s) rows)) \<sigma>"
proof (induction rows arbitrary: \<sigma>)
  case Nil
  show ?case by simp
next
  case (Cons res rest)
  show ?case
    by (simp add: file_steps_def run_def until_append Cons.IH
          split: option.splits sum.splits)
qed

lemma file_stage_plan:
  "file_stage s er \<sigma> = until_first_failure s (file_stage_steps s er) \<sigma>"
  by (simp add: file_stage_def file_stage_steps_def run_def file_loop_plan Let_def
        split: option.splits)

lemma try_body_plan:
  "try_body s e q \<sigma> = until_first_failure s (planned_steps s e q) \<sigma>"
  by (simp add: try_body_def planned_steps_def Let_def until_append vector_stage_plan
        traversal_stage_plan path_stage_plan keyword_stage_plan file_stage_plan
        split: option.splits prod.splits)

lemma until_harmless:
  "list_all (harmless s) pre \<Longrightarrow>
     until_first_failure s (pre @ rest) \<sigma>
       = until_first_failure s rest
           (\<sigma>\<lparr>context_list := context_list \<sigma> @ said pre, ran := ran \<sigma> @ sent pre\<rparr>)"
proof (induction pre arbitrary: \<sigma>)
  case Nil
  show ?case by simp
next
  case (Cons a pre)
  then show ?case by (cases a) simp_all
qed

lemma retrieve_plan:
  "retrieve_graph_context e q s =
     (case until_first_failure s (planned_steps s e q) initial of
        (r, \<sigma>) \<Rightarrow>
          \<lparr>returned = render_context (context_list \<sigma>),
           logged = (case r of None \<Rightarrow> [] | Some x \<Rightarrow> [log_caught x]),
           executed = ran \<sigma>\<rparr>)"
  by (simp add: retrieve_graph_context_def try_body_plan initial_def)

lemma failing_send:
  assumes "planned_steps s e q = pre @ Send qq # post" and "list_all (harmless s) pre"
    and "fault s qq = Some x"
  shows "retrieve_graph_context e q s =
           \<lparr>returned = render_context (said pre), logged = [log_caught x],
            executed = sent pre @ [qq]\<rparr>"
  using assms by (simp add: retrieve_plan until_harmless initial_def)

lemma failing_raise:
  assumes "planned_steps s e q = pre @ Raise x # post" and "list_all (harmless s) pre"
  shows "retrieve_graph_context e q s =
           \<lparr>returned = render_context (said pre), logged = [log_caught x],
            executed = sent pre\<rparr>"
  using assms by (simp add: retrieve_plan until_harmless initial_def)

lemma no_failure:
  assumes "list_all (harmless s) (planned_steps s e q)"
  shows "retrieve_graph_context e q s =
           \<lparr>returned = render_context (said (planned_steps s e q)), logged = [],
            executed = sent (planned_steps s e q)\<rparr>"
  using until_harmless [OF assms, of "[]" initial]
  by (simp add: retrieve_plan initial_def)

text \<open>
  Claim C1, as amended.  An exception of a query is caught and logged and the request is not
  aborted: \<^verbatim>\<open>retrieve_graph_context\<close> returns the rendering of the evidence gathered so far.
  A query that fails is the last query sent.  The run is its planned steps taken until the
  first failure: when the first step that fails is a query, the result is made of exactly
  the sentences planned before that query, whatever stages they belong to, and of the
  queries up to it; likewise for an exception that Python raises while rendering; and
  without a failure every planned sentence is in the result.  In particular the evidence
  of the vector stage stays in the result, and a failing traversal query after a vector
  stage with results leaves exactly the evidence of the vector stage.
\<close>

theorem stage_failure_contained:
  "(fault s qq = Some x \<and> qq \<in> set (executed (retrieve_graph_context e q s))
      \<longrightarrow> last (executed (retrieve_graph_context e q s)) = qq
          \<and> logged (retrieve_graph_context e q s) = [log_caught x])
   \<and> returned (retrieve_graph_context e q s) = render_context (evidence e q s)
   \<and> (vector_stage s e initial = (Inr er, \<sigma>1)
      \<longrightarrow> (\<exists>rest. evidence e q s = context_list \<sigma>1 @ rest))
   \<and> (vector_stage s e initial = (Inr er, \<sigma>1) \<and> er \<noteq> [] \<and> fault s TraversalQuery = Some y
      \<longrightarrow> retrieve_graph_context e q s =
            \<lparr>returned = render_context (context_list \<sigma>1), logged = [log_caught y],
             executed = [FunctionQuery, FileQuery, TraversalQuery]\<rparr>)
   \<and> retrieve_graph_context e q s =
       (case until_first_failure s (planned_steps s e q) initial of
          (r, \<sigma>) \<Rightarrow>
            \<lparr>returned = render_context (context_list \<sigma>),
             logged = (case r of None \<Rightarrow> [] | Some x \<Rightarrow> [log_caught x]),
             executed = ran \<sigma>\<rparr>)
   \<and> (planned_steps s e q = pre @ Send fq # post \<and> list_all (harmless s) pre
        \<and> fault s fq = Some z
      \<longrightarrow> retrieve_graph_context e q s =
            \<lparr>returned = render_context (said pre), logged = [log_caught z],
             executed = sent pre @ [fq]\<rparr>)
   \<and> (planned_steps s e q = pre @ Raise z # post \<and> list_all (harmless s) pre
      \<longrightarrow> retrieve_graph_context e q s =
            \<lparr>returned = render_context (said pre), logged = [log_caught z],
             executed = sent pre\<rparr>)
   \<and> (list_all (harmless s) (planned_steps s e q)
      \<longrightarrow> retrieve_graph_context e q s =
            \<lparr>returned = render_context (said (planned_steps s e q)), logged = [],
             executed = sent (planned_steps s e q)\<rparr>)"
proof (intro conjI impI)
  assume "fault s qq = Some x \<and> qq \<in> set (executed (retrieve_graph_context e q s))"
  then have r: "last (executed (retrieve_graph_context e q s)) = qq
      \<and> logged (retrieve_graph_context e q s) = [log_caught x]"
    using failing_query_last [of s qq x e q] by blast
  from r show "last (executed (retrieve_graph_context e q s)) = qq" by blast
  from r show "logged (retrieve_graph_context e q s) = [log_caught x]" by blast
next
  show "returned (retrieve_graph_context e q s) = render_context (evidence e q s)"
    by (rule returned_render)
next
  assume "vector_stage s e initial = (Inr er, \<sigma>1)"
  then show "\<exists>rest. evidence e q s = context_list \<sigma>1 @ rest"
    by (rule vector_evidence_kept)
next
  assume "vector_stage s e initial = (Inr er, \<sigma>1) \<and> er \<noteq> [] \<and> fault s TraversalQuery = Some y"
  then show "retrieve_graph_context e q s =
            \<lparr>returned = render_context (context_list \<sigma>1), logged = [log_caught y],
             executed = [FunctionQuery, FileQuery, TraversalQuery]\<rparr>"
    using traversal_failure [of s e er \<sigma>1 y q] by blast
next
  show "retrieve_graph_context e q s =
       (case until_first_failure s (planned_steps s e q) initial of
          (r, \<sigma>) \<Rightarrow>
            \<lparr>returned = render_context (context_list \<sigma>),
             logged = (case r of None \<Rightarrow> [] | Some x \<Rightarrow> [log_caught x]),
             executed = ran \<sigma>\<rparr>)"
    by (rule retrieve_plan)
next
  assume "planned_steps s e q = pre @ Send fq # post \<and> list_all (harmless s) pre
        \<and> fault s fq = Some z"
  then show "retrieve_graph_context e q s =
            \<lparr>returned = render_context (said pre), logged = [log_caught z],
             executed = sent pre @ [fq]\<rparr>"
    using failing_send [of s e q pre fq post z] by blast
next
  assume "planned_steps s e q = pre @ Raise z # post \<and> list_all (harmless s) pre"
  then show "retrieve_graph_context e q s =
            \<lparr>returned = render_context (said pre), logged = [log_caught z],
             executed = sent pre\<rparr>"
    using failing_raise [of s e q pre z post] by blast
next
  assume "list_all (harmless s) (planned_steps s e q)"
  then show "retrieve_graph_context e q s =
            \<lparr>returned = render_context (said (planned_steps s e q)), logged = [],
             executed = sent (planned_steps s e q)\<rparr>"
    by (rule no_failure)
qed

theorem stage_failure_contained_witness:
  "fault traversal_fails TraversalQuery = Some (Neo4jError ''apoc'')
   \<and> TraversalQuery \<in> set (executed (retrieve_graph_context [] ''how does parseConfig work'' traversal_fails))
   \<and> last (executed (retrieve_graph_context [] ''how does parseConfig work'' traversal_fails))
       = TraversalQuery
   \<and> logged (retrieve_graph_context [] ''how does parseConfig work'' traversal_fails)
       = [LogError ''Neo4j Cypher error during context retrieval: apoc'']
   \<and> planned_steps name_fails [] demo_question
       = before_name_query @ Send NameQuery # drop 17 (planned_steps name_fails [] demo_question)
   \<and> list_all (harmless name_fails) before_name_query
   \<and> fault name_fails NameQuery = Some (Neo4jError ''down'')
   \<and> retrieve_graph_context [] demo_question name_fails =
       \<lparr>returned = render_context (said before_name_query),
        logged = [LogError ''Neo4j Cypher error during context retrieval: down''],
        executed = [FunctionQuery, FileQuery, TraversalQuery, PathQuery, NameQuery]\<rparr>
   \<and> length (said before_name_query) = 12"
proof -
  have a: "fault traversal_fails TraversalQuery = Some (Neo4jError ''apoc'')"
    by (simp add: traversal_fails_def)
  have b: "TraversalQuery \<in> set (executed (retrieve_graph_context [] ''how does parseConfig work'' traversal_fails))"
    by code_simp
  note T = stage_failure_contained [where s = traversal_fails and qq = TraversalQuery
      and x = "Neo4jError ''apoc''" and e = "[]" and q = "''how does parseConfig work''"]
  from a b have ab: "fault traversal_fails TraversalQuery = Some (Neo4jError ''apoc'')
      \<and> TraversalQuery \<in> set (executed (retrieve_graph_context [] ''how does parseConfig work'' traversal_fails))"
    by (rule conjI)
  note c = T [THEN conjunct1, THEN mp, OF ab]
  have c1: "last (executed (retrieve_graph_context [] ''how does parseConfig work'' traversal_fails))
       = TraversalQuery"
    by (rule c [THEN conjunct1])
  have c2: "logged (retrieve_graph_context [] ''how does parseConfig work'' traversal_fails)
       = [LogError ''Neo4j Cypher error during context retrieval: apoc'']"
    using c [THEN conjunct2] by simp
  have p: "(let p = planned_steps name_fails [] demo_question in
      p = take 16 p @ Send NameQuery # drop 17 p
      \<and> list_all (harmless name_fails) (take 16 p)
      \<and> sent (take 16 p) = [FunctionQuery, FileQuery, TraversalQuery, PathQuery]
      \<and> length (said (take 16 p)) = 12)"
    by code_simp
  have d: "planned_steps name_fails [] demo_question
       = before_name_query @ Send NameQuery # drop 17 (planned_steps name_fails [] demo_question)"
    and f: "list_all (harmless name_fails) before_name_query"
    and h: "sent before_name_query = [FunctionQuery, FileQuery, TraversalQuery, PathQuery]"
    and i: "length (said before_name_query) = 12"
    using p unfolding Let_def before_name_query_def by blast+
  have g: "fault name_fails NameQuery = Some (Neo4jError ''down'')"
    by (simp add: name_fails_def)
  note U = stage_failure_contained [where s = name_fails and e = "[]" and q = demo_question
      and pre = before_name_query and fq = NameQuery
      and post = "drop 17 (planned_steps name_fails [] demo_question)"
      and z = "Neo4jError ''down''"]
  from d f g have dfg: "planned_steps name_fails [] demo_question
        = before_name_query @ Send NameQuery # drop 17 (planned_steps name_fails [] demo_question)
      \<and> list_all (harmless name_fails) before_name_query
      \<and> fault name_fails NameQuery = Some (Neo4jError ''down'')"
    by (intro conjI)
  have j: "retrieve_graph_context [] demo_question name_fails =
       \<lparr>returned = render_context (said before_name_query),
        logged = [LogError ''Neo4j Cypher error during context retrieval: down''],
        executed = [FunctionQuery, FileQuery, TraversalQuery, PathQuery, NameQuery]\<rparr>"
    using U [THEN conjunct2, THEN conjunct2, THEN conjunct2, THEN conjunct2, THEN conjunct2,
        THEN conjunct1, THEN mp, OF dfg]
    by (simp add: h)
  show ?thesis
    by (intro conjI) (rule a b c1 c2 d f g j i)+
qed

text \<open>Claim C1 as stated fails when the traversal query fails: the path, keyword and file
  stages send no query and contribute nothing, although the keyword stage alone would
  contribute three sentences.\<close>

theorem later_stages_skipped_counterexample:
  "fault traversal_fails TraversalQuery = Some (Neo4jError ''apoc'')
   \<and> executed (retrieve_graph_context [] ''how does parseConfig work'' traversal_fails)
       = [FunctionQuery, FileQuery, TraversalQuery]
   \<and> evidence [] ''how does parseConfig work'' traversal_fails
       = context_list (snd (vector_stage traversal_fails [] initial))
   \<and> fst (keyword_stage traversal_fails ''how does parseConfig work'' initial) = None
   \<and> length (context_list (snd (keyword_stage traversal_fails ''how does parseConfig work'' initial))) = 3
   \<and> length (evidence [] ''how does parseConfig work'' traversal_fails) = 3"
proof -
  have a: "fault traversal_fails TraversalQuery = Some (Neo4jError ''apoc'')"
    by (simp add: traversal_fails_def)
  have b: "executed (retrieve_graph_context [] ''how does parseConfig work'' traversal_fails)
       = [FunctionQuery, FileQuery, TraversalQuery]"
    by code_simp
  have c: "evidence [] ''how does parseConfig work'' traversal_fails
       = context_list (snd (vector_stage traversal_fails [] initial))"
    by code_simp
  have d: "fst (keyword_stage traversal_fails ''how does parseConfig work'' initial) = None"
    by code_simp
  have e: "length (context_list (snd (keyword_stage traversal_fails ''how does parseConfig work'' initial))) = 3"
    by code_simp
  have f: "length (evidence [] ''how does parseConfig work'' traversal_fails) = 3"
    by code_simp
  from a b c d e f show ?thesis by blast
qed

section \<open>Claims about the traversal stage\<close>

lemma set_cy_distinct: "set (cy_distinct xs) = set xs"
  by (induction xs rule: cy_distinct.induct) auto

lemma distinct_cy_distinct: "distinct (cy_distinct xs)"
  by (induction xs rule: cy_distinct.induct) (auto simp: set_cy_distinct)

lemma traversal_pairs_own_start:
  "(node, start) \<in> set (traversal_pairs s ids) \<Longrightarrow>
     nid node \<noteq> nid start \<and> start \<in> set (traversal_starts s ids)
     \<and> node \<in> path_last ` set (expandConfig s start)"
  by (auto simp: traversal_pairs_def)

lemma traversal_starts_match:
  "start \<in> set (traversal_starts s ids) \<longleftrightarrow>
     start \<in> set (nodes s) \<and> (\<exists>i \<in> set ids. is_start (id_name i) (id_filePath i) start)"
  by (auto simp: traversal_starts_def)

text \<open>
  Claim C6, as amended.  Every node that the traversal query keeps is distinct from the
  start node from which its own expansion began (\<^verbatim>\<open>node <> start\<close>), that start node
  matches a seed id, and the node ends a path of the expansion; the rows returned are
  projections of such nodes, pairwise distinct and at most 20.
\<close>

theorem traversal_excludes_own_start:
  "(\<forall>(node, start) \<in> set (traversal_pairs s ids).
       nid node \<noteq> nid start \<and> start \<in> set (traversal_starts s ids)
       \<and> node \<in> path_last ` set (expandConfig s start))
   \<and> set (traversal_query s ids) \<subseteq> (\<lambda>(node, start). project node) ` set (traversal_pairs s ids)
   \<and> distinct (traversal_query s ids)
   \<and> length (traversal_query s ids) \<le> 20"
proof (intro conjI)
  show "\<forall>(node, start) \<in> set (traversal_pairs s ids).
       nid node \<noteq> nid start \<and> start \<in> set (traversal_starts s ids)
       \<and> node \<in> path_last ` set (expandConfig s start)"
    using traversal_pairs_own_start by blast
  have "set (traversal_query s ids)
      \<subseteq> set (cy_distinct (map (\<lambda>(node, start). project node) (traversal_pairs s ids)))"
    unfolding traversal_query_def by (rule set_take_subset)
  then show "set (traversal_query s ids) \<subseteq> (\<lambda>(node, start). project node) ` set (traversal_pairs s ids)"
    by (simp add: set_cy_distinct)
  show "distinct (traversal_query s ids)"
    by (simp add: traversal_query_def distinct_cy_distinct)
  show "length (traversal_query s ids) \<le> 20"
    by (simp add: traversal_query_def)
qed

theorem traversal_excludes_own_start_witness:
  "(node_load, node_parse) \<in> set (traversal_pairs demo_session (entity_ids demo_results))
   \<and> nid node_load \<noteq> nid node_parse
   \<and> node_parse \<in> set (traversal_starts demo_session (entity_ids demo_results))
   \<and> length (traversal_query demo_session (entity_ids demo_results)) = 5"
proof -
  have a: "(node_load, node_parse) \<in> set (traversal_pairs demo_session (entity_ids demo_results))"
    by code_simp
  with traversal_excludes_own_start [of demo_session "entity_ids demo_results"]
  have b: "nid node_load \<noteq> nid node_parse
      \<and> node_parse \<in> set (traversal_starts demo_session (entity_ids demo_results))"
    by blast
  have c: "length (traversal_query demo_session (entity_ids demo_results)) = 5"
    by code_simp
  from a b c show ?thesis by blast
qed

text \<open>Claim C6 as stated fails on the small graph: \<^verbatim>\<open>loadSettings\<close> is a seed and a start
  node, and the traversal returns it, reached from the seed \<^verbatim>\<open>parseConfig\<close>.\<close>

theorem traversal_returns_seed_counterexample:
  "map (\<lambda>res. (name res, filePath res)) demo_results
     = [(Some ''parseConfig'', Some ''src/config.py''),
        (Some ''loadSettings'', Some ''src/settings.py''),
        (Some ''config.py'', Some ''src/config.py'')]
   \<and> traversal_starts demo_session (entity_ids demo_results)
       = [node_parse, node_file, node_load, node_file]
   \<and> map (\<lambda>res. (name res, filePath res)) (traversal_query demo_session (entity_ids demo_results))
     = [(Some ''loadSettings'', Some ''src/settings.py''),
        (Some ''config.py'', Some ''src/config.py''),
        (Some ''readFile'', Some ''src/io.py''),
        (Some ''parseConfig'', Some ''src/config.py''),
        (Some ''parseConfig'', Some ''tests/test_config.py'')]
   \<and> project node_load \<in> set (traversal_query demo_session (entity_ids demo_results))"
proof -
  have a: "map (\<lambda>res. (name res, filePath res)) demo_results
     = [(Some ''parseConfig'', Some ''src/config.py''),
        (Some ''loadSettings'', Some ''src/settings.py''),
        (Some ''config.py'', Some ''src/config.py'')]"
    by code_simp
  have b: "traversal_starts demo_session (entity_ids demo_results)
       = [node_parse, node_file, node_load, node_file]"
    by code_simp
  have c: "map (\<lambda>res. (name res, filePath res)) (traversal_query demo_session (entity_ids demo_results))
     = [(Some ''loadSettings'', Some ''src/settings.py''),
        (Some ''config.py'', Some ''src/config.py''),
        (Some ''readFile'', Some ''src/io.py''),
        (Some ''parseConfig'', Some ''src/config.py''),
        (Some ''parseConfig'', Some ''tests/test_config.py'')]"
    by code_simp
  have d: "project node_load \<in> set (traversal_query demo_session (entity_ids demo_results))"
    by code_simp
  from a b c d show ?thesis by blast
qed

section \<open>Claims about the seed ids\<close>

lemma cy_split_no_delim: "d \<notin> set s \<Longrightarrow> cy_split d s = [s]"
  by (induction s) auto

lemma cy_split_at_delim:
  "d \<notin> set a \<Longrightarrow> cy_split d (a @ d # b) = a # cy_split d b"
  by (induction a) auto

lemma id_round_trip:
  assumes "CHR ''-'' \<notin> set n" and "CHR ''-'' \<notin> set p"
  shows "id_name (n @ ''-'' @ p) = Some n \<and> id_filePath (n @ ''-'' @ p) = Some p"
  using assms by (simp add: id_name_def id_filePath_def cy_split_at_delim cy_split_no_delim)

lemma traversal_starts_dash_free:
  assumes "CHR ''-'' \<notin> set n" and "CHR ''-'' \<notin> set p"
  shows "set (traversal_starts s [n @ ''-'' @ p])
           = {start \<in> set (nodes s). is_start (Some n) (Some p) start}"
  using id_round_trip [OF assms] by (auto simp: traversal_starts_def)

text \<open>
  Claim C2 at a seed whose file path contains \<^verbatim>\<open>-\<close>.  The vector stage returns the
  function \<^verbatim>\<open>main\<close> of \<^verbatim>\<open>my-app/main.py\<close>; its id is \<^verbatim>\<open>main-my-app/main.py\<close>, which line
  279 splits into the name \<^verbatim>\<open>main\<close> and the file path \<^verbatim>\<open>my\<close>; the node, which has the
  seed's name and file path, is not among the start nodes of the traversal.
\<close>

theorem seed_with_dash_not_located:
  "map (\<lambda>res. (name res, filePath res)) (function_query dash_session [] @ file_query dash_session [])
     = [(Some ''main'', Some ''my-app/main.py'')]
   \<and> entity_ids (function_query dash_session [] @ file_query dash_session [])
     = [''main-my-app/main.py'']
   \<and> id_name ''main-my-app/main.py'' = Some ''main''
   \<and> id_filePath ''main-my-app/main.py'' = Some ''my''
   \<and> is_start (Some ''main'') (Some ''my-app/main.py'') node_dash
   \<and> node_dash \<in> set (nodes dash_session)
   \<and> traversal_starts dash_session
         (entity_ids (function_query dash_session [] @ file_query dash_session [])) = []"
  by code_simp

section \<open>Claims about the path stage\<close>



















section \<open>Claims about the responses\<close>

lemma handle_exception_envelope:
  "keys (handle_exception e) = envelope_keys \<and> snd (handle_exception e) \<noteq> 200"
  by (cases e)
     (simp_all add: keys_def envelope_keys_def handle_bad_request_def handle_not_found_def
        handle_db_connection_error_def handle_google_api_error_def handle_generic_error_def)

lemma clear_failed_shape:
  "clear_failed e = Inr resp \<Longrightarrow> keys resp = [''success'', ''message''] \<and> snd resp = 500"
  by (cases e) (auto simp: keys_def)

lemma chat_shapes:
  "chat_with_graph env r = Inr resp \<Longrightarrow>
     (snd resp = 400 \<and> keys resp = [''response''])
     \<or> (snd resp = 500 \<and> fst resp = [(''response'', JStr (''Could not generate embeddings for your query. '' @ ''Please try again.'')), (''context_used'', JStr [])])
     \<or> (snd resp = 200 \<and> (\<exists>answer ctx. fst resp = [(''response'', JStr answer), (''context_used'', JStr ctx)] \<and> ctx \<noteq> []))"
  unfolding chat_with_graph_def Let_def
  by (auto simp: keys_def returned_nonempty
        split: chat_request.splits option.splits sum.splits if_splits)

lemma health_shapes:
  "keys (health_check env) = [''status'', ''message'']
   \<and> snd (health_check env) \<in> {200, 500, 503}"
  unfolding health_check_def
  by (auto simp: keys_def split: sum.splits option.splits exn.splits)

lemma clear_shapes:
  "clear_database env = Inr resp \<Longrightarrow>
     keys resp = [''success'', ''message''] \<and> (snd resp = 200 \<or> snd resp = 500)"
  unfolding clear_database_def
  by (auto simp: keys_def split: sum.splits option.splits dest!: clear_failed_shape)

text \<open>
  Claim C9, as amended.  A response with a status other than 200 has one of five bodies: the
  error envelope with the keys \<^verbatim>\<open>status\<close>, \<^verbatim>\<open>message\<close>, \<^verbatim>\<open>error_type\<close>; the key
  \<^verbatim>\<open>response\<close> alone (missing query); \<^verbatim>\<open>response\<close> and \<^verbatim>\<open>context_used\<close> (empty
  embedding); \<^verbatim>\<open>status\<close> and \<^verbatim>\<open>message\<close> (health check); \<^verbatim>\<open>success\<close> and
  \<^verbatim>\<open>message\<close> (clearing the database).  A response with status 200 has one of the three
  success bodies, and a successful chat response carries a non-empty \<^verbatim>\<open>context_used\<close>
  (the sentinel stands in for an empty context).
\<close>

theorem error_response_shapes:
  "(snd (serve env req) \<noteq> 200 \<longrightarrow> keys (serve env req) \<in> set error_shapes)
   \<and> (snd (serve env req) = 200 \<longrightarrow>
         keys (serve env req) \<in> {[''response'', ''context_used''], [''status'', ''message''],
                                  [''success'', ''message'']})
   \<and> (snd (serve env (PostChat r)) = 200 \<longrightarrow>
         (\<exists>answer ctx. fst (serve env (PostChat r))
              = [(''response'', JStr answer), (''context_used'', JStr ctx)] \<and> ctx \<noteq> []))"
proof -
  have chat: "\<And>r. (\<exists>e. chat_with_graph env r = Inl e) \<or> (\<exists>resp. chat_with_graph env r = Inr resp)"
    by (metis sum.exhaust)
  have p3: "snd (serve env (PostChat r)) = 200 \<longrightarrow>
         (\<exists>answer ctx. fst (serve env (PostChat r))
              = [(''response'', JStr answer), (''context_used'', JStr ctx)] \<and> ctx \<noteq> [])"
    using chat [of r] handle_exception_envelope chat_shapes [of env r]
    by (auto simp: serve_def)
  have p12: "(snd (serve env req) \<noteq> 200 \<longrightarrow> keys (serve env req) \<in> set error_shapes)
   \<and> (snd (serve env req) = 200 \<longrightarrow>
         keys (serve env req) \<in> {[''response'', ''context_used''], [''status'', ''message''],
                                  [''success'', ''message'']})"
  proof (cases req)
    case (PostChat c)
    show ?thesis
    proof (cases "chat_with_graph env c")
      case (Inl e)
      with PostChat handle_exception_envelope [of e] show ?thesis
        by (simp add: serve_def error_shapes_def)
    next
      case (Inr resp)
      with PostChat chat_shapes [OF Inr] show ?thesis
        by (auto simp: serve_def error_shapes_def keys_def)
    qed
  next
    case GetHealthz
    with health_shapes [of env] show ?thesis
      by (auto simp: serve_def error_shapes_def)
  next
    case PostClearDatabase
    show ?thesis
    proof (cases "clear_database env")
      case (Inl e)
      with PostClearDatabase handle_exception_envelope [of e] show ?thesis
        by (simp add: serve_def error_shapes_def)
    next
      case (Inr resp)
      with PostClearDatabase clear_shapes [OF Inr] show ?thesis
        by (auto simp: serve_def error_shapes_def)
    qed
  next
    case Unrouted
    with handle_exception_envelope [of "HTTPException 404 []"] show ?thesis
      by (simp add: serve_def error_shapes_def)
  qed
  from p12 p3 show ?thesis by blast
qed

text \<open>Claim C9 as stated fails for a chat request without a query, answered with status 400
  and the body \<^verbatim>\<open>{"response": "Please provide a query."}\<close>, and for a health check with
  an unreachable database, answered with status 503 and the keys \<^verbatim>\<open>status\<close> and
  \<^verbatim>\<open>message\<close>: neither body is the envelope, neither carries the sentinel.\<close>

theorem missing_query_counterexample:
  "serve demo_env (PostChat (ChatJson None []))
     = ([(''response'', JStr ''Please provide a query.'')], 400)
   \<and> keys (serve demo_env (PostChat (ChatJson None []))) \<noteq> envelope_keys
   \<and> (''context_used'', JStr no_context) \<notin> set (fst (serve demo_env (PostChat (ChatJson None []))))
   \<and> serve down_env GetHealthz
     = ([(''status'', JStr ''ERROR''),
         (''message'', JStr ''Neo4j database connection failed: Failed to connect to Neo4j database.'')],
        503)
   \<and> keys (serve down_env GetHealthz) \<noteq> envelope_keys"
  by code_simp

theorem error_response_shapes_witness:
  "snd (serve down_env PostClearDatabase) = 500
   \<and> keys (serve down_env PostClearDatabase) = envelope_keys
   \<and> keys (serve down_env PostClearDatabase) \<in> set error_shapes"
proof -
  have a: "snd (serve down_env PostClearDatabase) = 500"
    by code_simp
  have b: "keys (serve down_env PostClearDatabase) = envelope_keys"
    by code_simp
  from a have "snd (serve down_env PostClearDatabase) \<noteq> 200" by simp
  with error_response_shapes [of down_env PostClearDatabase, THEN conjunct1]
  have c: "keys (serve down_env PostClearDatabase) \<in> set error_shapes"
    by (rule mp)
  from a b c show ?thesis by blast
qed

end
